theory Spec2Isabelle
  imports Complex_Main "HOL-Library.Monad_Syntax" "HOL-Library.Word"
begin

section \<open>Binary32 arithmetic\<close>

text \<open>
  Values of C++ type \<^verbatim>\<open>float\<close> are the reals that binary32 represents, and an
  arithmetic operation on them is the exact operation followed by \<open>f32\<close>, the rounding
  to the nearest binary32 value, ties to the even significand. \<open>f32_exponent\<close> is the
  exponent of the binade of \<open>x\<close>, not below the one of the subnormal numbers; the
  significand has 24 bits. Overflow to infinity and NaN are outside the model: every
  value that occurs below is bounded.
\<close>

definition round_even :: "real \<Rightarrow> int" where
  "round_even r =
     (if r - of_int \<lfloor>r\<rfloor> < 1/2 then \<lfloor>r\<rfloor>
      else if 1/2 < r - of_int \<lfloor>r\<rfloor> then \<lfloor>r\<rfloor> + 1
      else if even \<lfloor>r\<rfloor> then \<lfloor>r\<rfloor> else \<lfloor>r\<rfloor> + 1)"

definition f32_exponent :: "real \<Rightarrow> int" where
  "f32_exponent x = max \<lfloor>log 2 \<bar>x\<bar>\<rfloor> (- 126)"

definition f32 :: "real \<Rightarrow> real" where
  "f32 x =
     of_int (round_even (x / 2 powr (of_int (f32_exponent x) - 23)))
       * 2 powr (of_int (f32_exponent x) - 23)"

text \<open>The constant \<^verbatim>\<open>0.001f\<close>.\<close>

definition eps32 :: real where
  "eps32 = f32 (1/1000)"

section \<open>AudioFileProcessor: the sample and its point markers\<close>

text \<open>
  The embedding follows \<^verbatim>\<open>plugins/AudioFileProcessor/AudioFileProcessor.cpp\<close>.
  The normalized markers are \<^verbatim>\<open>float\<close> values and their arithmetic is binary32.
  Frame counts (\<^verbatim>\<open>f_cnt_t\<close>, a 32-bit integer) are integers without a bound.
\<close>

type_synonym f_cnt_t = int

text \<open>
  The part of \<^verbatim>\<open>Sample\<close> the instrument reads and writes: the number of
  frames of the buffer (\<^verbatim>\<open>sampleSize()\<close>) and the four absolute frame markers.
\<close>

record Sample =
  sampleSize :: nat
  startFrame :: f_cnt_t
  endFrame :: f_cnt_t
  loopStartFrame :: f_cnt_t
  loopEndFrame :: f_cnt_t

text \<open>
  Modelled from the spec: \<^verbatim>\<open>Sample::setAllPointFrames\<close> (Sample.cpp is not part of
  the sources at hand). It stores the four frame markers start, end, loop start and loop
  end, in this order.
\<close>

definition setAllPointFrames :: "f_cnt_t \<Rightarrow> f_cnt_t \<Rightarrow> f_cnt_t \<Rightarrow> f_cnt_t \<Rightarrow> Sample \<Rightarrow> Sample" where
  "setAllPointFrames f_start f_end f_loopStart f_loopEnd s =
     s\<lparr>startFrame := f_start, endFrame := f_end,
       loopStartFrame := f_loopStart, loopEndFrame := f_loopEnd\<rparr>"

text \<open>
  The members of \<^verbatim>\<open>AudioFileProcessor\<close>. The three point models are
  \<^verbatim>\<open>FloatModel\<close>s constructed with minimum 0 and maximum 1; the record holds their
  current values. \<open>m_loopModel\<close> is the loop mode index (0 off, 1 loop, 2 ping-pong),
  \<open>m_interpolationModel\<close> the interpolation index (0 none, 1 linear, 2 sinc).
\<close>

record AudioFileProcessor =
  m_sample :: Sample
  m_startPointModel :: real
  m_endPointModel :: real
  m_loopPointModel :: real
  m_loopModel :: nat
  m_stutterModel :: bool
  m_interpolationModel :: nat
  m_nextPlayStartPoint :: f_cnt_t
  m_nextPlayBackwards :: bool

text \<open>
  \<^verbatim>\<open>static_cast<f_cnt_t>(float)\<close>: truncation towards zero. The conversion is
  defined in C++ when the truncated value is in the range of the type; for a marker in
  [0, 1] on a sample of at most \<open>2^31 - 256\<close> frames it is (\<open>frame_in_range\<close> below).
\<close>

definition to_f_cnt_t :: "real \<Rightarrow> f_cnt_t" where
  "to_f_cnt_t x = (if 0 \<le> x then \<lfloor>x\<rfloor> else \<lceil>x\<rceil>)"

text \<open>
  \<^verbatim>\<open>AudioFileProcessor::pointChanged\<close>. In each product the sample size is
  converted to \<^verbatim>\<open>float\<close> first, and the product is a \<^verbatim>\<open>float\<close>.
\<close>

definition pointChanged :: "AudioFileProcessor \<Rightarrow> AudioFileProcessor" where
  "pointChanged a =
     (let f_start = to_f_cnt_t (f32 (m_startPointModel a * f32 (real (sampleSize (m_sample a)))));
          f_end = to_f_cnt_t (f32 (m_endPointModel a * f32 (real (sampleSize (m_sample a)))));
          f_loop = to_f_cnt_t (f32 (m_loopPointModel a * f32 (real (sampleSize (m_sample a)))))
      in a\<lparr>m_nextPlayStartPoint := f_start,
           m_nextPlayBackwards := False,
           m_sample := setAllPointFrames f_start f_end f_loop f_end (m_sample a)\<rparr>)"

text \<open>
  Modelled from the spec: \<^verbatim>\<open>FloatModel::setValue\<close> (AutomatableModel.cpp is not part
  of the sources at hand). The new value is clamped to the model range, which is [0, 1]
  for the three point models; when the stored value changes, the model emits
  \<^verbatim>\<open>dataChanged()\<close>. The constructor of \<^verbatim>\<open>AudioFileProcessor\<close> connects that
  signal of each point model to its slot with \<^verbatim>\<open>Qt::DirectConnection\<close>, so the
  slot runs inside \<^verbatim>\<open>setValue\<close>, before it returns; a value that does not change
  emits nothing.
\<close>

definition fittedValue :: "real \<Rightarrow> real" where
  "fittedValue v = max 0 (min v 1)"

text \<open>
  The slots \<^verbatim>\<open>startPointChanged\<close>, \<^verbatim>\<open>endPointChanged\<close> and
  \<^verbatim>\<open>loopPointChanged\<close>, and \<^verbatim>\<open>setValue\<close> on each of the three point models.
  A slot sets other models, whose signals run slots again; the first argument bounds the
  depth of this nesting, and \<open>None\<close> says that the bound was reached.
\<close>

fun startPointChanged :: "nat \<Rightarrow> AudioFileProcessor \<Rightarrow> AudioFileProcessor option"
  and endPointChanged :: "nat \<Rightarrow> AudioFileProcessor \<Rightarrow> AudioFileProcessor option"
  and loopPointChanged :: "nat \<Rightarrow> AudioFileProcessor \<Rightarrow> AudioFileProcessor option"
  and setStartPoint :: "nat \<Rightarrow> real \<Rightarrow> AudioFileProcessor \<Rightarrow> AudioFileProcessor option"
  and setEndPoint :: "nat \<Rightarrow> real \<Rightarrow> AudioFileProcessor \<Rightarrow> AudioFileProcessor option"
  and setLoopPoint :: "nat \<Rightarrow> real \<Rightarrow> AudioFileProcessor \<Rightarrow> AudioFileProcessor option"
where
  "startPointChanged n a = do {
     a1 \<leftarrow> (if m_startPointModel a > m_endPointModel a
            then do {
              let tmp = m_endPointModel a;
              a' \<leftarrow> setEndPoint n (m_startPointModel a) a;
              setStartPoint n tmp a' }
            else Some a);
     a2 \<leftarrow> (if m_loopPointModel a1 \<ge> m_endPointModel a1
            then setLoopPoint n (max (f32 (m_endPointModel a1 - eps32)) 0) a1
            else Some a1);
     a3 \<leftarrow> (if m_loopPointModel a2 < m_startPointModel a2
            then setLoopPoint n (m_startPointModel a2) a2
            else Some a2);
     a4 \<leftarrow> (if m_startPointModel a3 = m_endPointModel a3
            then setEndPoint n (min (f32 (m_endPointModel a3 + eps32)) 1) a3
            else Some a3);
     Some (pointChanged a4) }"
| "endPointChanged n a = startPointChanged n a"
| "loopPointChanged n a = do {
     a1 \<leftarrow> (if m_loopPointModel a \<ge> m_endPointModel a
            then do {
              a' \<leftarrow> setEndPoint n (f32 (m_loopPointModel a + eps32)) a;
              if m_endPointModel a' = 1
              then setLoopPoint n (f32 (1 - eps32)) a'
              else Some a' }
            else Some a);
     a2 \<leftarrow> (if m_loopPointModel a1 < m_startPointModel a1
            then setStartPoint n (m_loopPointModel a1) a1
            else Some a1);
     Some (pointChanged a2) }"
| "setStartPoint 0 v a =
     (if fittedValue v = m_startPointModel a then Some a else None)"
| "setStartPoint (Suc n) v a =
     (if fittedValue v = m_startPointModel a then Some a
      else startPointChanged n (a\<lparr>m_startPointModel := fittedValue v\<rparr>))"
| "setEndPoint 0 v a =
     (if fittedValue v = m_endPointModel a then Some a else None)"
| "setEndPoint (Suc n) v a =
     (if fittedValue v = m_endPointModel a then Some a
      else endPointChanged n (a\<lparr>m_endPointModel := fittedValue v\<rparr>))"
| "setLoopPoint 0 v a =
     (if fittedValue v = m_loopPointModel a then Some a else None)"
| "setLoopPoint (Suc n) v a =
     (if fittedValue v = m_loopPointModel a then Some a
      else loopPointChanged n (a\<lparr>m_loopPointModel := fittedValue v\<rparr>))"


text \<open>
  The order the conflict resolution is meant to establish on the normalized markers, and
  the range the three models keep their values in.
\<close>

definition markers_ok :: "AudioFileProcessor \<Rightarrow> bool" where
  "markers_ok a \<longleftrightarrow>
     m_startPointModel a < m_endPointModel a \<and>
     m_startPointModel a \<le> m_loopPointModel a \<and>
     m_loopPointModel a < m_endPointModel a"

definition in_model_range :: "AudioFileProcessor \<Rightarrow> bool" where
  "in_model_range a \<longleftrightarrow>
     0 \<le> m_startPointModel a \<and> m_startPointModel a \<le> 1 \<and>
     0 \<le> m_endPointModel a \<and> m_endPointModel a \<le> 1 \<and>
     0 \<le> m_loopPointModel a \<and> m_loopPointModel a \<le> 1"

text \<open>
  The frame markers of the sample are current when they are the ones
  \<open>pointChanged\<close> computes from the normalized markers.
\<close>

definition frames_current :: "AudioFileProcessor \<Rightarrow> bool" where
  "frames_current a \<longleftrightarrow> m_sample (pointChanged a) = m_sample a"

text \<open>
  The instrument with the normalized markers \<open>s\<close>, \<open>e\<close>, \<open>l\<close> and everything
  \<open>pointChanged\<close> derives from them.
\<close>

definition resolved :: "real \<Rightarrow> real \<Rightarrow> real \<Rightarrow> AudioFileProcessor \<Rightarrow> AudioFileProcessor" where
  "resolved s e l a =
     pointChanged (a\<lparr>m_startPointModel := s, m_endPointModel := e, m_loopPointModel := l\<rparr>)"

text \<open>
  The constructor: the models' initial values, an empty sample, and the call of
  \<open>pointChanged\<close> that ends it.
\<close>

definition AudioFileProcessor_new :: AudioFileProcessor where
  "AudioFileProcessor_new =
     pointChanged
       \<lparr>m_sample = \<lparr>sampleSize = 0, startFrame = 0, endFrame = 0,
                    loopStartFrame = 0, loopEndFrame = 0\<rparr>,
        m_startPointModel = 0, m_endPointModel = 1, m_loopPointModel = 0,
        m_loopModel = 0, m_stutterModel = False, m_interpolationModel = 1,
        m_nextPlayStartPoint = 0, m_nextPlayBackwards = False\<rparr>"

text \<open>A sample of ten frames, as its constructor leaves it.\<close>

definition ten_frames :: Sample where
  "ten_frames =
     \<lparr>sampleSize = 10, startFrame = 0, endFrame = 10, loopStartFrame = 0, loopEndFrame = 10\<rparr>"

text \<open>A sample of 625 frames, as its constructor leaves it.\<close>

definition sample_625 :: Sample where
  "sample_625 =
     \<lparr>sampleSize = 625, startFrame = 0, endFrame = 625, loopStartFrame = 0, loopEndFrame = 625\<rparr>"

text \<open>
  \<^verbatim>\<open>AudioFileProcessor::setAudioFile\<close>: the sample is replaced by the one loaded
  from the file, then \<open>loopPointChanged\<close> is called. The renaming of the track is
  outside the model.
\<close>

definition setAudioFile :: "nat \<Rightarrow> Sample \<Rightarrow> AudioFileProcessor \<Rightarrow> AudioFileProcessor option" where
  "setAudioFile n smp a = loopPointChanged n (a\<lparr>m_sample := smp\<rparr>)"

text \<open>
  An edit of one normalized marker from outside (a knob, the wave view, a loaded
  project): \<^verbatim>\<open>setValue\<close> on the marker's model. A sequence of edits runs each to
  completion before the next.
\<close>

datatype point_edit = SetStart real | SetEnd real | SetLoop real

fun pointEdit :: "nat \<Rightarrow> point_edit \<Rightarrow> AudioFileProcessor \<Rightarrow> AudioFileProcessor option" where
  "pointEdit n (SetStart v) a = setStartPoint n v a"
| "pointEdit n (SetEnd v) a = setEndPoint n v a"
| "pointEdit n (SetLoop v) a = setLoopPoint n v a"

fun pointEdits :: "nat \<Rightarrow> point_edit list \<Rightarrow> AudioFileProcessor \<Rightarrow> AudioFileProcessor option" where
  "pointEdits n [] a = Some a"
| "pointEdits n (x # xs) a = pointEdit n x a \<bind> pointEdits n xs"

section \<open>AudioFileProcessor: playing a note\<close>

text \<open>
  A frame holds the sample values of the left and the right channel. Sample values are
  real numbers, and the product with the master gain further below is the real product:
  the statements about frames say which frames are stored and multiplied, and with a gain
  of 1 or 0 the binary32 product of the code is the same number.
\<close>

type_synonym sampleFrame = "real \<times> real"

datatype src_mode = SRC_ZERO_ORDER_HOLD | SRC_LINEAR | SRC_SINC_MEDIUM_QUALITY

text \<open>
  \<^verbatim>\<open>Sample::PlaybackState\<close>: the cursor of one note, its direction, and the two
  arguments of its constructor.
\<close>

record PlaybackState =
  frameIndex :: f_cnt_t
  backwards :: bool
  varyingPitch :: bool
  interpolationMode :: src_mode

text \<open>What \<open>playNote\<close> reads of the \<^verbatim>\<open>NotePlayHandle\<close>, and its plugin data.\<close>

record NotePlayHandle =
  framesLeftForCurrentPeriod :: nat
  noteOffset :: nat
  frequency :: real
  hasDetuningInfo :: bool
  isFinished :: bool
  m_pluginData :: "PlaybackState option"

text \<open>
  The working buffer is the memory at \<^verbatim>\<open>_working_buffer\<close>, frame by frame.
  \<open>write_frames\<close> stores a list of frames from a given index on, \<open>memset_frames\<close>
  clears the first \<open>k\<close> frames.
\<close>

type_synonym working_buffer = "nat \<Rightarrow> sampleFrame"

definition write_frames :: "working_buffer \<Rightarrow> nat \<Rightarrow> sampleFrame list \<Rightarrow> working_buffer" where
  "write_frames buf offset fs =
     (\<lambda>i. if offset \<le> i \<and> i < offset + length fs then fs ! (i - offset) else buf i)"

definition memset_frames :: "working_buffer \<Rightarrow> nat \<Rightarrow> working_buffer" where
  "memset_frames buf k = (\<lambda>i. if i < k then (0, 0) else buf i)"

text \<open>
  \<^verbatim>\<open>Sample::play\<close> and \<^verbatim>\<open>Instrument::applyRelease\<close> are defined outside the
  sources at hand; \<open>playNote\<close> takes them as parameters. \<open>play\<close> receives the sample,
  the playback state, the number of frames, the frequency and the loop mode, and returns
  whether it produced audio, the playback state it leaves, and the frames it stored at
  its destination, of which at most the requested number are taken.
\<close>

type_synonym sample_play =
  "Sample \<Rightarrow> PlaybackState \<Rightarrow> nat \<Rightarrow> real \<Rightarrow> nat \<Rightarrow> bool \<times> PlaybackState \<times> sampleFrame list"

type_synonym release_fn = "working_buffer \<Rightarrow> NotePlayHandle \<Rightarrow> working_buffer"

text \<open>
  The block of \<open>playNote\<close> that runs when the note has no plugin data yet: the stutter
  restart at the end of the sample, the choice of the resampler, and the new playback
  state at the continuation point.
\<close>

definition newPlaybackState :: "AudioFileProcessor \<Rightarrow> NotePlayHandle \<Rightarrow> AudioFileProcessor \<times> PlaybackState" where
  "newPlaybackState a n =
     (let a' = (if m_stutterModel a \<and> m_nextPlayStartPoint a \<ge> endFrame (m_sample a)
                then a\<lparr>m_nextPlayStartPoint := startFrame (m_sample a),
                       m_nextPlayBackwards := False\<rparr>
                else a);
          srcmode = (if m_interpolationModel a' = 0 then SRC_ZERO_ORDER_HOLD
                     else if m_interpolationModel a' = 1 then SRC_LINEAR
                     else if m_interpolationModel a' = 2 then SRC_SINC_MEDIUM_QUALITY
                     else SRC_LINEAR)
      in (a', \<lparr>frameIndex = m_nextPlayStartPoint a',
                backwards = m_nextPlayBackwards a',
                varyingPitch = hasDetuningInfo n,
                interpolationMode = srcmode\<rparr>))"

text \<open>
  The playback state \<open>playNote\<close> works with: the note's plugin data, created first
  when the note has none.
\<close>

definition notePlaybackState :: "AudioFileProcessor \<Rightarrow> NotePlayHandle \<Rightarrow> AudioFileProcessor \<times> PlaybackState" where
  "notePlaybackState a n =
     (case m_pluginData n of
        None \<Rightarrow> newPlaybackState a n
      | Some ps \<Rightarrow> (a, ps))"

text \<open>
  The statements of \<open>playNote\<close> after the magic-key check. The result is the
  instrument, the note, the working buffer and the argument of the signal
  \<^verbatim>\<open>isPlaying\<close>.
\<close>

definition playNote_render ::
  "sample_play \<Rightarrow> release_fn \<Rightarrow> AudioFileProcessor \<Rightarrow> NotePlayHandle \<Rightarrow> working_buffer
     \<Rightarrow> AudioFileProcessor \<times> NotePlayHandle \<times> working_buffer \<times> f_cnt_t option" where
  "playNote_render play applyRelease a n buf =
     (let frames = framesLeftForCurrentPeriod n;
          offset = noteOffset n;
          (a1, ps) = notePlaybackState a n;
          n1 = n\<lparr>m_pluginData := Some ps\<rparr>;
          (n2, ps', buf', sig) =
            (if \<not> isFinished n1
             then (case play (m_sample a1) ps frames (frequency n1) (m_loopModel a1) of
                     (ok, ps', out) \<Rightarrow>
                       let n2 = n1\<lparr>m_pluginData := Some ps'\<rparr>;
                           played = write_frames buf offset (take frames out)
                       in if ok
                          then (n2, ps', applyRelease played n2, Some (frameIndex ps'))
                          else (n2, ps', memset_frames played (frames + offset), Some 0))
             else (n1, ps, buf, Some 0));
          a2 = (if m_stutterModel a1
                then a1\<lparr>m_nextPlayStartPoint := frameIndex ps',
                        m_nextPlayBackwards := backwards ps'\<rparr>
                else a1)
      in (a2, n2, buf', sig))"

text \<open>\<^verbatim>\<open>AudioFileProcessor::playNote\<close>.\<close>

definition playNote ::
  "sample_play \<Rightarrow> release_fn \<Rightarrow> AudioFileProcessor \<Rightarrow> NotePlayHandle \<Rightarrow> working_buffer
     \<Rightarrow> AudioFileProcessor \<times> NotePlayHandle \<times> working_buffer \<times> f_cnt_t option" where
  "playNote play applyRelease a n buf =
     (if m_stutterModel a \<and> frequency n < 20
      then (a\<lparr>m_nextPlayStartPoint := startFrame (m_sample a),
              m_nextPlayBackwards := False\<rparr>, n, buf, None)
      else playNote_render play applyRelease a n buf)"




section \<open>AudioSdl: the device callback\<close>

text \<open>
  The embedding follows \<^verbatim>\<open>src/core/audio/AudioSdl.cpp\<close>. The members of
  \<^verbatim>\<open>AudioSdl\<close> the callback uses, for both variants of the conditional compilation,
  and \<open>enginePeriod\<close>, the number of buffers pulled from the engine so far.
\<close>

type_synonym Uint8 = "8 word"

record AudioSdl =
  m_stopped :: bool
  m_outBuf :: "sampleFrame list"
  m_currentBufferFramesCount :: nat
  m_currentBufferFramePos :: nat
  m_convertedBuf :: "Uint8 list"
  m_convertedBufPos :: nat
  m_convertedBufSize :: nat
  m_outConvertEndian :: bool
  m_channels :: nat
  enginePeriod :: nat

text \<open>
  Modelled from the spec: \<^verbatim>\<open>AudioDevice::getNextBuffer\<close> (AudioDevice.cpp is not part
  of the sources at hand). It pulls one period of mixed frames from the engine into the
  buffer it is given and returns their number; zero frames say that the engine has
  nothing. The engine is the sequence \<open>eng\<close> of the periods it hands out.
\<close>

definition getNextBuffer :: "(nat \<Rightarrow> sampleFrame list) \<Rightarrow> AudioSdl \<Rightarrow> nat \<times> AudioSdl" where
  "getNextBuffer eng st =
     (let b = eng (enginePeriod st)
      in (length b,
          st\<lparr>m_outBuf := b @ drop (length b) (m_outBuf st),
             enginePeriod := Suc (enginePeriod st)\<rparr>))"

text \<open>
  What the callback stores at \<^verbatim>\<open>_buf\<close> in the float variant: zero bytes from
  \<^verbatim>\<open>memset\<close>, and frames from \<^verbatim>\<open>memcpy\<close>, each
  \<^verbatim>\<open>sizeof(sampleFrame)\<close> = 8 bytes long.
\<close>

datatype out_cell = ZeroByte | FrameBytes sampleFrame

fun cell_size :: "out_cell \<Rightarrow> nat" where
  "cell_size ZeroByte = 1"
| "cell_size (FrameBytes f) = 8"

definition scaleFrame :: "real \<Rightarrow> sampleFrame \<Rightarrow> sampleFrame" where
  "scaleFrame gain f = (fst f * gain, snd f * gain)"

text \<open>
  The body of the float variant's loop after the buffer is there: the gain on the frames
  to deliver, the copy, and the advance of the position. It returns the frames copied,
  the length left, and the device. The loop reads the master gain of the engine in every
  iteration; \<open>gain\<close> is its value during the callback.
\<close>

definition deliverFrames :: "real \<Rightarrow> nat \<Rightarrow> AudioSdl \<Rightarrow> sampleFrame list \<times> nat \<times> AudioSdl" where
  "deliverFrames gain len st =
     (let pos = m_currentBufferFramePos st;
          min_frames_count = min (len div 8) (m_currentBufferFramesCount st - pos);
          outBuf = take pos (m_outBuf st)
                   @ map (scaleFrame gain) (take min_frames_count (drop pos (m_outBuf st)))
                   @ drop (pos + min_frames_count) (m_outBuf st)
      in (take min_frames_count (drop pos outBuf),
          len - min_frames_count * 8,
          st\<lparr>m_outBuf := outBuf,
             m_currentBufferFramePos :=
               (pos + min_frames_count) mod m_currentBufferFramesCount st\<rparr>))"

text \<open>
  The loop \<^verbatim>\<open>while( _len )\<close> of the float variant (\<^verbatim>\<open>LMMS_HAVE_SDL2\<close>). The
  first argument bounds the number of iterations; \<open>None\<close> says that the bound was
  reached.
\<close>

fun sdlAudioCallback_loop ::
  "nat \<Rightarrow> (nat \<Rightarrow> sampleFrame list) \<Rightarrow> real \<Rightarrow> nat \<Rightarrow> AudioSdl \<Rightarrow> (out_cell list \<times> AudioSdl) option" where
  "sdlAudioCallback_loop 0 eng gain len st = None"
| "sdlAudioCallback_loop (Suc k) eng gain len st =
     (if len = 0 then Some ([], st)
      else if m_currentBufferFramePos st = 0 \<and> fst (getNextBuffer eng st) = 0
      then Some (replicate len ZeroByte, snd (getNextBuffer eng st))
      else
        let st1 = (if m_currentBufferFramePos st = 0
                   then (snd (getNextBuffer eng st))
                          \<lparr>m_currentBufferFramesCount := fst (getNextBuffer eng st)\<rparr>
                   else st)
        in case deliverFrames gain len st1 of
             (chunk, len', st2) \<Rightarrow>
               (case sdlAudioCallback_loop k eng gain len' st2 of
                  None \<Rightarrow> None
                | Some (out, st') \<Rightarrow> Some (map FrameBytes chunk @ out, st')))"

text \<open>\<^verbatim>\<open>AudioSdl::sdlAudioCallback\<close>, float variant.\<close>

definition sdlAudioCallback ::
  "nat \<Rightarrow> (nat \<Rightarrow> sampleFrame list) \<Rightarrow> real \<Rightarrow> nat \<Rightarrow> AudioSdl \<Rightarrow> (out_cell list \<times> AudioSdl) option" where
  "sdlAudioCallback k eng gain len st =
     (if m_stopped st then Some (replicate len ZeroByte, st)
      else sdlAudioCallback_loop k eng gain len st)"

text \<open>
  The fixed-point variant. \<^verbatim>\<open>convertToS16\<close> is defined outside the sources at hand
  and is the parameter \<open>conv\<close>: from the frames, the master gain and the endianness flag
  to the bytes it stores in \<open>m_convertedBuf\<close>. \<^verbatim>\<open>sizeof(int_sample_t)\<close> is 2.
  \<open>convertPeriod\<close> is the branch of the loop that pulls and converts a buffer,
  \<open>copyConverted\<close> the copy that follows, which returns the bytes copied, the length
  left, and the device. Position and size are natural numbers; the position stays below
  the size.
\<close>

definition convertPeriod ::
  "(nat \<Rightarrow> sampleFrame list) \<Rightarrow> (sampleFrame list \<Rightarrow> real \<Rightarrow> bool \<Rightarrow> Uint8 list) \<Rightarrow> real
     \<Rightarrow> AudioSdl \<Rightarrow> AudioSdl" where
  "convertPeriod eng conv gain st =
     (let frames = fst (getNextBuffer eng st);
          st0 = snd (getNextBuffer eng st);
          bytes = conv (take frames (m_outBuf st0)) gain (m_outConvertEndian st0)
      in st0\<lparr>m_convertedBufSize := frames * m_channels st0 * 2,
             m_convertedBuf := bytes @ drop (length bytes) (m_convertedBuf st0)\<rparr>)"

definition copyConverted :: "nat \<Rightarrow> AudioSdl \<Rightarrow> Uint8 list \<times> nat \<times> AudioSdl" where
  "copyConverted len st =
     (let min_len = min len (m_convertedBufSize st - m_convertedBufPos st)
      in (take min_len (drop (m_convertedBufPos st) (m_convertedBuf st)),
          len - min_len,
          st\<lparr>m_convertedBufPos :=
               (m_convertedBufPos st + min_len) mod m_convertedBufSize st\<rparr>))"

fun sdlAudioCallback_s16_loop ::
  "nat \<Rightarrow> (nat \<Rightarrow> sampleFrame list) \<Rightarrow> (sampleFrame list \<Rightarrow> real \<Rightarrow> bool \<Rightarrow> Uint8 list) \<Rightarrow> real
     \<Rightarrow> nat \<Rightarrow> AudioSdl \<Rightarrow> (Uint8 list \<times> AudioSdl) option" where
  "sdlAudioCallback_s16_loop 0 eng conv gain len st = None"
| "sdlAudioCallback_s16_loop (Suc k) eng conv gain len st =
     (if len = 0 then Some ([], st)
      else if m_convertedBufPos st = 0 \<and> fst (getNextBuffer eng st) = 0
      then Some (replicate len 0, (snd (getNextBuffer eng st))\<lparr>m_stopped := True\<rparr>)
      else
        let st1 = (if m_convertedBufPos st = 0 then convertPeriod eng conv gain st else st)
        in case copyConverted len st1 of
             (chunk, len', st2) \<Rightarrow>
               (case sdlAudioCallback_s16_loop k eng conv gain len' st2 of
                  None \<Rightarrow> None
                | Some (out, st') \<Rightarrow> Some (chunk @ out, st')))"

text \<open>\<^verbatim>\<open>AudioSdl::sdlAudioCallback\<close>, fixed-point variant.\<close>

definition sdlAudioCallback_s16 ::
  "nat \<Rightarrow> (nat \<Rightarrow> sampleFrame list) \<Rightarrow> (sampleFrame list \<Rightarrow> real \<Rightarrow> bool \<Rightarrow> Uint8 list) \<Rightarrow> real
     \<Rightarrow> nat \<Rightarrow> AudioSdl \<Rightarrow> (Uint8 list \<times> AudioSdl) option" where
  "sdlAudioCallback_s16 k eng conv gain len st =
     (if m_stopped st then Some (replicate len 0, st)
      else sdlAudioCallback_s16_loop k eng conv gain len st)"

text \<open>
  The frames of the current buffer from the position on, whatever the position is.
\<close>

definition avail :: "AudioSdl \<Rightarrow> sampleFrame list" where
  "avail st = drop (m_currentBufferFramePos st) (take (m_currentBufferFramesCount st) (m_outBuf st))"

text \<open>
  The frames of the current buffer that are not delivered yet, and the condition the
  position and the count of the float variant keep: the position is inside the buffer, or
  zero when a new buffer is due.
\<close>

definition pending :: "AudioSdl \<Rightarrow> sampleFrame list" where
  "pending st =
     (if m_currentBufferFramePos st = 0 then []
      else drop (m_currentBufferFramePos st) (take (m_currentBufferFramesCount st) (m_outBuf st)))"

definition sdl_ok :: "AudioSdl \<Rightarrow> bool" where
  "sdl_ok st \<longleftrightarrow>
     (m_currentBufferFramePos st = 0 \<or>
      m_currentBufferFramePos st < m_currentBufferFramesCount st \<and>
      m_currentBufferFramesCount st \<le> length (m_outBuf st))"

section \<open>Effect: wet and dry level\<close>

text \<open>
  The embedding follows \<^verbatim>\<open>include/Effect.h\<close>; \<open>m_wetDryModel\<close> holds the value of
  the wet/dry model, a \<^verbatim>\<open>float\<close>. The subtraction in \<^verbatim>\<open>dryLevel\<close> is
  \<^verbatim>\<open>1.0f - m_wetDryModel.value()\<close>, a binary32 operation.
\<close>

record Effect =
  m_wetDryModel :: real

definition wetLevel :: "Effect \<Rightarrow> real" where
  "wetLevel e = m_wetDryModel e"

definition dryLevel :: "Effect \<Rightarrow> real" where
  "dryLevel e = f32 (1 - m_wetDryModel e)"

section \<open>Concrete instances\<close>

text \<open>
  An instrument with the ten-frame sample in stutter mode, a note of 440 Hz with four
  frames in its period, a render function that reports no audio when the cursor is at or
  past the end frame with loop mode off and otherwise advances the cursor and stores ones,
  a playback state at the end of the sample, and a device with a period of three frames,
  an engine that always has a buffer and one that has none in its second period. The
  theorems below are applied to them.
\<close>

definition demo_instrument :: AudioFileProcessor where
  "demo_instrument =
     \<lparr>m_sample = ten_frames,
      m_startPointModel = 0, m_endPointModel = 1, m_loopPointModel = 0,
      m_loopModel = 0, m_stutterModel = True, m_interpolationModel = 1,
      m_nextPlayStartPoint = 0, m_nextPlayBackwards = False\<rparr>"

definition demo_note :: NotePlayHandle where
  "demo_note =
     \<lparr>framesLeftForCurrentPeriod = 4, noteOffset = 0, frequency = 440,
      hasDetuningInfo = False, isFinished = False, m_pluginData = None\<rparr>"

definition demo_play :: sample_play where
  "demo_play s ps frames freq loopMode =
     (if loopMode = 0 \<and> endFrame s \<le> frameIndex ps then (False, ps, [])
      else (True, ps\<lparr>frameIndex := frameIndex ps + int frames\<rparr>, replicate frames (1, 1)))"

definition demo_release :: release_fn where
  "demo_release buf n = buf"

definition demo_buffer :: working_buffer where
  "demo_buffer = (\<lambda>i. (1, 1))"


definition demo_device :: AudioSdl where
  "demo_device =
     \<lparr>m_stopped = False, m_outBuf = replicate 3 (0, 0),
      m_currentBufferFramesCount = 0, m_currentBufferFramePos = 0,
      m_convertedBuf = replicate 12 0, m_convertedBufPos = 0, m_convertedBufSize = 12,
      m_outConvertEndian = False, m_channels = 2, enginePeriod = 0\<rparr>"

definition demo_engine :: "nat \<Rightarrow> sampleFrame list" where
  "demo_engine j = [(1, 2), (3, 4), (5, 6)]"

definition demo_gap_engine :: "nat \<Rightarrow> sampleFrame list" where
  "demo_gap_engine j = (if j = 1 then [] else [(1, 2), (3, 4), (5, 6)])"

definition demo_convert :: "sampleFrame list \<Rightarrow> real \<Rightarrow> bool \<Rightarrow> Uint8 list" where
  "demo_convert fs gain endian = replicate (4 * length fs) 1"

section \<open>Rounding\<close>

text \<open>
  The rounding error of \<open>f32\<close>, its value on a number whose binade is known, and what
  the nudges by \<^verbatim>\<open>0.001f\<close> do to a marker in [0, 1].
\<close>

lemma round_even_error: "\<bar>of_int (round_even r) - r\<bar> \<le> 1/2"
  unfolding round_even_def by (auto split: if_splits)

lemma f32_zero [simp]: "f32 0 = 0"
  by (simp add: f32_def round_even_def)

lemma f32_half_ulp:
  "\<bar>f32 x - x\<bar> \<le> 2 powr (of_int (f32_exponent x) - 23) / 2"
proof -
  define u :: real where "u = 2 powr (of_int (f32_exponent x) - 23)"
  have u: "0 < u" by (simp add: u_def)
  have "f32 x - x = (of_int (round_even (x / u)) - x / u) * u"
    using u by (simp add: f32_def u_def [symmetric] algebra_simps)
  then have "\<bar>f32 x - x\<bar> = \<bar>of_int (round_even (x / u)) - x / u\<bar> * u"
    using u by (simp add: abs_mult)
  also have "\<dots> \<le> 1/2 * u"
    using round_even_error [of "x / u"] u by (intro mult_right_mono) simp_all
  finally show ?thesis by (simp add: u_def)
qed

lemma f32_error: "\<bar>f32 x - x\<bar> \<le> \<bar>x\<bar> / 2 ^ 24 + 1 / 2 ^ 150"
proof (cases "x = 0")
  case True
  then show ?thesis by simp
next
  case False
  show ?thesis
  proof (cases "- 126 \<le> \<lfloor>log 2 \<bar>x\<bar>\<rfloor>")
    case True
    then have e: "f32_exponent x = \<lfloor>log 2 \<bar>x\<bar>\<rfloor>"
      by (simp add: f32_exponent_def)
    have "(2::real) powr of_int \<lfloor>log 2 \<bar>x\<bar>\<rfloor> \<le> 2 powr log 2 \<bar>x\<bar>"
      by (intro powr_mono) simp_all
    also have "\<dots> = \<bar>x\<bar>" using False by simp
    finally have le: "2 powr of_int \<lfloor>log 2 \<bar>x\<bar>\<rfloor> \<le> \<bar>x\<bar>" .
    have "(2::real) powr (of_int (f32_exponent x) - 23) / 2 = 2 powr of_int \<lfloor>log 2 \<bar>x\<bar>\<rfloor> / 2 ^ 24"
      by (simp add: e powr_diff)
    also have "\<dots> \<le> \<bar>x\<bar> / 2 ^ 24"
      using le by (simp add: divide_right_mono)
    finally show ?thesis
      using f32_half_ulp [of x] by simp
  next
    case False
    then have e: "f32_exponent x = - 126"
      by (simp add: f32_exponent_def)
    have "(2::real) powr (of_int (f32_exponent x) - 23) / 2 = 1 / 2 ^ 150"
      by (simp add: e powr_minus_divide flip: powr_realpow)
    with f32_half_ulp [of x] have "\<bar>f32 x - x\<bar> \<le> 1 / 2 ^ 150"
      by (simp only:)
    moreover have "0 \<le> \<bar>x\<bar> / 2 ^ 24"
      by simp
    ultimately show ?thesis
      by linarith
  qed
qed

lemma f32_error_normal:
  assumes "1 / 2 ^ 126 \<le> \<bar>x\<bar>"
  shows "\<bar>f32 x - x\<bar> \<le> \<bar>x\<bar> / 2 ^ 24"
proof -
  from assms have nz: "x \<noteq> 0" by auto
  have "(2::real) powr (- 126) \<le> \<bar>x\<bar>"
    using assms by (simp add: powr_minus_divide flip: powr_realpow)
  then have "- 126 \<le> log 2 \<bar>x\<bar>"
    using nz by (simp add: le_log_iff)
  then have "- 126 \<le> \<lfloor>log 2 \<bar>x\<bar>\<rfloor>"
    by (simp add: le_floor_iff)
  then have e: "f32_exponent x = \<lfloor>log 2 \<bar>x\<bar>\<rfloor>"
    by (simp add: f32_exponent_def)
  have "(2::real) powr of_int \<lfloor>log 2 \<bar>x\<bar>\<rfloor> \<le> 2 powr log 2 \<bar>x\<bar>"
    by (intro powr_mono) simp_all
  also have "\<dots> = \<bar>x\<bar>" using nz by simp
  finally have le: "2 powr of_int \<lfloor>log 2 \<bar>x\<bar>\<rfloor> \<le> \<bar>x\<bar>" .
  have "(2::real) powr (of_int (f32_exponent x) - 23) / 2 = 2 powr of_int \<lfloor>log 2 \<bar>x\<bar>\<rfloor> / 2 ^ 24"
    by (simp add: e powr_diff)
  also have "\<dots> \<le> \<bar>x\<bar> / 2 ^ 24"
    using le by (simp add: divide_right_mono)
  finally show ?thesis
    using f32_half_ulp [of x] by simp
qed


lemma f32_exponent_eq:
  assumes "2 powr of_int e \<le> \<bar>x\<bar>" "\<bar>x\<bar> < 2 powr (of_int e + 1)" "- 126 \<le> e"
  shows "f32_exponent x = e"
proof -
  from assms(1) have "0 < \<bar>x\<bar>"
    by (smt (verit) powr_gt_zero)
  with assms(1,2) have "\<lfloor>log 2 \<bar>x\<bar>\<rfloor> = e"
    by (simp add: floor_log_eq_powr_iff)
  with assms(3) show ?thesis
    by (simp add: f32_exponent_def)
qed

lemma f32_eval_neg:
  assumes "1 / 2 ^ n \<le> \<bar>x\<bar>" "\<bar>x\<bar> < 2 / 2 ^ n" "n \<le> 126"
  shows "f32 x = of_int (round_even (x * 2 ^ (n + 23))) / 2 ^ (n + 23)"
proof -
  have p: "(2::real) powr of_int (- int n) = 1 / 2 ^ n"
    by (simp add: powr_minus_divide powr_realpow)
  have q: "(2::real) powr (of_int (- int n) + 1) = 2 / 2 ^ n"
    unfolding powr_add p by simp
  have e: "f32_exponent x = - int n"
  proof (rule f32_exponent_eq)
    show "2 powr of_int (- int n) \<le> \<bar>x\<bar>"
      unfolding p by (rule assms(1))
    show "\<bar>x\<bar> < 2 powr (of_int (- int n) + 1)"
      unfolding q by (rule assms(2))
    show "- 126 \<le> - int n"
      using assms(3) by simp
  qed
  have "(2::real) powr (of_int (- int n) - 23) = 2 powr of_int (- int n) / 2 powr 23"
    by (rule powr_diff)
  also have "\<dots> = 1 / 2 ^ (n + 23)"
    unfolding p by (simp add: power_add)
  finally have u: "(2::real) powr (of_int (- int n) - 23) = 1 / 2 ^ (n + 23)" .
  show ?thesis
    unfolding f32_def e u by simp
qed

lemma f32_eval_pos:
  assumes "2 ^ n \<le> \<bar>x\<bar>" "\<bar>x\<bar> < 2 * 2 ^ n"
  shows "f32 x = of_int (round_even (x * 2 ^ 23 / 2 ^ n)) * 2 ^ n / 2 ^ 23"
proof -
  have p: "(2::real) powr of_int (int n) = 2 ^ n"
    by (simp add: powr_realpow)
  have q: "(2::real) powr (of_int (int n) + 1) = 2 * 2 ^ n"
    unfolding powr_add p by simp
  have e: "f32_exponent x = int n"
  proof (rule f32_exponent_eq)
    show "2 powr of_int (int n) \<le> \<bar>x\<bar>"
      unfolding p by (rule assms(1))
    show "\<bar>x\<bar> < 2 powr (of_int (int n) + 1)"
      unfolding q by (rule assms(2))
    show "- 126 \<le> int n"
      by simp
  qed
  have "(2::real) powr (of_int (int n) - 23) = 2 powr of_int (int n) / 2 powr 23"
    by (rule powr_diff)
  also have "\<dots> = 2 ^ n / 2 ^ 23"
    unfolding p by simp
  finally have u: "(2::real) powr (of_int (int n) - 23) = 2 ^ n / 2 ^ 23" .
  show ?thesis
    unfolding f32_def e u by simp
qed

lemma eps32_value: "eps32 = 8589935 / 8589934592"
  unfolding eps32_def
  by (subst f32_eval_neg [where n = 10]) (simp_all add: round_even_def)

lemma one_minus_eps32: "f32 (1 - eps32) = 16760439 / 16777216"
  unfolding eps32_value
  by (subst f32_eval_neg [where n = 1]) (simp_all add: round_even_def)

lemma eps32_pos: "0 < eps32" "eps32 < 1"
  by (simp_all add: eps32_value)

lemma plus_eps32_gt:
  assumes "0 \<le> x" "x \<le> 1"
  shows "x < f32 (x + eps32)"
proof -
  have "1 / 2 ^ 126 \<le> \<bar>x + eps32\<bar>"
    using assms by (simp add: eps32_value)
  from f32_error_normal [OF this] assms show ?thesis
    by (simp add: eps32_value abs_if split: if_splits)
qed

lemma minus_eps32_lt:
  assumes "0 < x" "x \<le> 1"
  shows "f32 (x - eps32) < x"
proof -
  have a: "\<bar>x - eps32\<bar> \<le> 1"
    using assms eps32_pos by linarith
  have "\<bar>x - eps32\<bar> / 2 ^ 24 \<le> 1 / 2 ^ 24"
    using a by (intro divide_right_mono) simp_all
  moreover have "(1::real) / 2 ^ 24 + 1 / 2 ^ 150 < eps32"
    by (simp add: eps32_value)
  ultimately show ?thesis
    using f32_error [of "x - eps32"] by linarith
qed

lemma minus_eps32_zero: "f32 (0 - eps32) \<le> 0"
proof -
  have "\<bar>0 - eps32\<bar> / 2 ^ 24 + 1 / 2 ^ 150 < eps32"
    by (simp add: eps32_value)
  then show ?thesis
    using f32_error [of "0 - eps32"] by linarith
qed

lemma f32_eps32: "f32 eps32 = eps32"
  unfolding eps32_value
  by (subst f32_eval_neg [where n = 10]) (simp_all add: round_even_def)

lemma f32_nonneg: "0 \<le> x \<Longrightarrow> 0 \<le> f32 x"
  unfolding f32_def round_even_def
  by (auto intro!: mult_nonneg_nonneg simp: divide_nonneg_pos)

lemma one_minus_eps32_bounds: "0 < f32 (1 - eps32)" "f32 (1 - eps32) < 1"
  by (simp_all add: one_minus_eps32)

lemma nudged_down:
  assumes "0 \<le> x" "x \<le> 1"
  shows "0 \<le> max (f32 (x - eps32)) 0" "max (f32 (x - eps32)) 0 \<le> 1"
    "max (f32 (x - eps32)) 0 \<le> x" "0 < x \<Longrightarrow> max (f32 (x - eps32)) 0 < x"
proof -
  show "0 \<le> max (f32 (x - eps32)) 0" by simp
  show lt: "0 < x \<Longrightarrow> max (f32 (x - eps32)) 0 < x"
    using minus_eps32_lt [of x] assms by simp
  show le: "max (f32 (x - eps32)) 0 \<le> x"
  proof (cases "x = 0")
    case True
    then show ?thesis using minus_eps32_zero by simp
  next
    case False
    with lt assms show ?thesis by simp
  qed
  from le assms show "max (f32 (x - eps32)) 0 \<le> 1" by linarith
qed

lemma nudged_down_zero: "max (f32 (- eps32)) 0 = 0"
  using minus_eps32_zero by simp

lemma nudged_up_zero: "min (f32 eps32) 1 = eps32"
  using eps32_pos by (simp add: f32_eps32)

lemma f32_998: "f32 (998/1000) = 8371831/8388608"
  by (subst f32_eval_neg [where n = 1]) (simp_all add: round_even_def)

lemma f32_999: "f32 (999/1000) = 16760439/16777216"
  by (subst f32_eval_neg [where n = 1]) (simp_all add: round_even_def)

lemma f32_998_plus_eps32: "f32 (8371831/8388608 + eps32) = 16760439/16777216"
  unfolding eps32_value
  by (subst f32_eval_neg [where n = 1]) (simp_all add: round_even_def)

lemma f32_999_plus_eps32: "f32 (16760439/16777216 + eps32) = 1"
  unfolding eps32_value
  by (subst f32_eval_pos [where n = 0]) (simp_all add: round_even_def)

lemma f32_one_plus_eps32: "f32 (1 + eps32) = 8396997 / 8388608"
  unfolding eps32_value
  by (subst f32_eval_pos [where n = 0]) (simp_all add: round_even_def)

lemma f32_three_eighths_plus_eps32: "f32 (3/8 + eps32) = 6308233/16777216"
  unfolding eps32_value
  by (subst f32_eval_neg [where n = 2]) (simp_all add: round_even_def)

lemma f32_625: "f32 625 = 625"
  by (subst f32_eval_pos [where n = 9]) (simp_all add: round_even_def)

lemma f32_10: "f32 10 = 10"
  by (subst f32_eval_pos [where n = 3]) (simp_all add: round_even_def)

lemma f32_end_frame_625: "f32 (3942645625/16777216) = 15400959/65536"
  by (subst f32_eval_pos [where n = 7]) (simp_all add: round_even_def)

lemma f32_loop_frame_625: "f32 (1875/8) = 1875/8"
  by (subst f32_eval_pos [where n = 7]) (simp_all add: round_even_def)

lemma frame_in_range:
  assumes "0 \<le> m" "m \<le> 1" "n \<le> 2147483392"
  shows "0 \<le> to_f_cnt_t (f32 (m * f32 (real n)))"
    and "to_f_cnt_t (f32 (m * f32 (real n))) < 2 ^ 31"
proof -
  define N where "N = f32 (real n)"
  define x where "x = m * N"
  have n: "real n \<le> 2147483392"
    using assms(3) by simp
  have N0: "0 \<le> N"
    by (simp add: N_def f32_nonneg)
  have "\<bar>real n\<bar> / 2 ^ 24 \<le> 2147483392 / 2 ^ 24"
    using n by (intro divide_right_mono) simp_all
  then have N1: "N \<le> 2147483392 + 2147483392 / 2 ^ 24 + 1 / 2 ^ 150"
    using f32_error [of "real n"] n unfolding N_def by linarith
  have x0: "0 \<le> x"
    using assms(1) N0 by (simp add: x_def)
  have x1: "x \<le> N"
    using mult_right_mono [OF assms(2) N0] by (simp add: x_def)
  have "\<bar>x\<bar> / 2 ^ 24 \<le> N / 2 ^ 24"
    using x0 x1 by (intro divide_right_mono) simp_all
  then have "f32 x \<le> N + N / 2 ^ 24 + 1 / 2 ^ 150"
    using f32_error [of x] x1 by linarith
  also have "\<dots> < 2 ^ 31"
    using N1 by simp
  finally have lt: "f32 x < 2 ^ 31" .
  have ge: "0 \<le> f32 x"
    using x0 by (rule f32_nonneg)
  from ge show "0 \<le> to_f_cnt_t (f32 (m * f32 (real n)))"
    by (simp add: to_f_cnt_t_def x_def N_def)
  from ge lt show "to_f_cnt_t (f32 (m * f32 (real n))) < 2 ^ 31"
    by (simp add: to_f_cnt_t_def x_def N_def floor_less_iff)
qed

lemma small_frame:
  assumes "0 \<le> x" "x \<le> 1/2"
  shows "to_f_cnt_t (f32 x) = 0"
proof -
  have "\<bar>x\<bar> / 2 ^ 24 \<le> 1 / 2 ^ 24"
    using assms by (intro divide_right_mono) simp_all
  moreover have "(1::real) / 2 ^ 24 + 1 / 2 ^ 150 < 1/2"
    by simp
  ultimately have "f32 x < 1"
    using f32_error [of x] assms by linarith
  with f32_nonneg [OF assms(1)] show ?thesis
    by (simp add: to_f_cnt_t_def floor_eq_iff)
qed

lemma f32_tenth: "f32 (1/10) = 13421773/134217728"
  by (subst f32_eval_neg [where n = 4]) (simp_all add: round_even_def)

lemma f32_one_minus_tenth: "f32 (1 - 13421773/134217728) = 7549747/8388608"
  by (subst f32_eval_neg [where n = 1]) (simp_all add: round_even_def)

section \<open>Conflict resolution of the point markers\<close>

declare startPointChanged.simps [simp del] loopPointChanged.simps [simp del]

lemma resolved_fields [simp]:
  "m_startPointModel (resolved s e l a) = s"
  "m_endPointModel (resolved s e l a) = e"
  "m_loopPointModel (resolved s e l a) = l"
  by (simp_all add: resolved_def pointChanged_def Let_def)

lemma resolved_absorb [simp]:
  "resolved s' e' l' (resolved s e l a) = resolved s' e' l' a"
  "resolved s' e' l' (a\<lparr>m_startPointModel := v\<rparr>) = resolved s' e' l' a"
  "resolved s' e' l' (a\<lparr>m_endPointModel := v\<rparr>) = resolved s' e' l' a"
  "resolved s' e' l' (a\<lparr>m_loopPointModel := v\<rparr>) = resolved s' e' l' a"
  by (simp_all add: resolved_def pointChanged_def setAllPointFrames_def Let_def)

lemma pointChanged_resolved:
  "pointChanged b = resolved (m_startPointModel b) (m_endPointModel b) (m_loopPointModel b) b"
  by (simp add: resolved_def)

lemma fittedValue_id: "0 \<le> v \<Longrightarrow> v \<le> 1 \<Longrightarrow> fittedValue v = v"
  by (simp add: fittedValue_def)

lemma spc_stable:
  "m_startPointModel b \<le> m_loopPointModel b \<Longrightarrow> m_loopPointModel b < m_endPointModel b \<Longrightarrow>
   startPointChanged n b =
     Some (resolved (m_startPointModel b) (m_endPointModel b) (m_loopPointModel b) b)"
  by (subst startPointChanged.simps) (simp add: pointChanged_resolved)

lemma lpc_stable:
  "m_startPointModel b \<le> m_loopPointModel b \<Longrightarrow> m_loopPointModel b < m_endPointModel b \<Longrightarrow>
   loopPointChanged n b =
     Some (resolved (m_startPointModel b) (m_endPointModel b) (m_loopPointModel b) b)"
  by (subst loopPointChanged.simps) (simp add: pointChanged_resolved)

lemma lpc_pull_start:
  "m_loopPointModel b < m_startPointModel b \<Longrightarrow> m_loopPointModel b < m_endPointModel b \<Longrightarrow>
   0 \<le> m_loopPointModel b \<Longrightarrow> m_loopPointModel b \<le> 1 \<Longrightarrow>
   loopPointChanged (Suc n) b =
     Some (resolved (m_loopPointModel b) (m_endPointModel b) (m_loopPointModel b) b)"
  by (subst loopPointChanged.simps)
     (simp add: pointChanged_resolved fittedValue_id spc_stable)

lemma spc_push_loop:
  "m_startPointModel b < m_endPointModel b \<Longrightarrow> m_loopPointModel b < m_startPointModel b \<Longrightarrow>
   0 \<le> m_startPointModel b \<Longrightarrow> m_startPointModel b \<le> 1 \<Longrightarrow>
   startPointChanged (Suc n) b =
     Some (resolved (m_startPointModel b) (m_endPointModel b) (m_startPointModel b) b)"
  by (subst startPointChanged.simps)
     (simp add: pointChanged_resolved fittedValue_id lpc_stable)

lemma resolved_cong:
  "s = s' \<Longrightarrow> e = e' \<Longrightarrow> l = l' \<Longrightarrow> resolved s e l b = resolved s' e' l' b"
  by simp

lemma spc_loop_above_end:
  assumes "m_startPointModel b < m_endPointModel b" "m_endPointModel b \<le> m_loopPointModel b"
    "0 \<le> m_startPointModel b" "m_endPointModel b \<le> 1"
  shows "startPointChanged (Suc (Suc n)) b =
     Some (resolved (min (m_startPointModel b) (max (f32 (m_endPointModel b - eps32)) 0))
             (m_endPointModel b) (max (f32 (m_endPointModel b - eps32)) 0) b)"
proof -
  define l2 where "l2 = max (f32 (m_endPointModel b - eps32)) 0"
  have l2: "0 \<le> l2" "l2 \<le> 1" "l2 < m_endPointModel b" "l2 \<noteq> m_loopPointModel b"
    using assms nudged_down [of "m_endPointModel b"] by (auto simp: l2_def)
  show ?thesis
  proof (cases "m_startPointModel b \<le> l2")
    case True
    with assms l2 show ?thesis
      unfolding l2_def [symmetric]
      by (subst startPointChanged.simps)
         (simp add: pointChanged_resolved fittedValue_id lpc_stable l2_def [symmetric])
  next
    case False
    with assms l2 show ?thesis
      unfolding l2_def [symmetric]
      by (subst startPointChanged.simps)
         (simp add: pointChanged_resolved fittedValue_id lpc_pull_start l2_def [symmetric])
  qed
qed

lemma lpc_push_end:
  assumes "m_endPointModel b \<le> m_loopPointModel b" "m_startPointModel b \<le> m_endPointModel b"
    "0 \<le> m_startPointModel b" "m_loopPointModel b \<le> 1"
  shows "loopPointChanged (Suc (Suc (Suc n))) b =
     Some (let e' = min (f32 (m_loopPointModel b + eps32)) 1;
               l' = (if e' = 1 then f32 (1 - eps32) else m_loopPointModel b);
               s' = (if l' < m_startPointModel b then l' else m_startPointModel b)
           in resolved s' e' l' b)"
proof -
  define k where "k = f32 (1 - eps32)"
  have k: "0 < k" "k < 1" "0 \<le> k" "k \<le> 1" "k \<noteq> 1" "max k 0 = k"
    using one_minus_eps32_bounds by (simp_all add: k_def)
  define p where "p = f32 (m_loopPointModel b + eps32)"
  have l: "0 \<le> m_loopPointModel b" using assms by linarith
  have p: "m_loopPointModel b < p" "0 < p" "0 \<le> p"
    using plus_eps32_gt [OF l assms(4)] l by (simp_all add: p_def)
  have p1: "f32 (1 + eps32) = p" if "m_loopPointModel b = 1"
    using that by (simp add: p_def)
  consider
      (low) "p < 1"
    | (edge) "1 \<le> p" "m_loopPointModel b < 1" "m_loopPointModel b = k"
    | (high) "1 \<le> p" "m_loopPointModel b < 1" "m_loopPointModel b \<noteq> k" "m_startPointModel b \<le> k"
    | (high') "1 \<le> p" "m_loopPointModel b < 1" "m_loopPointModel b \<noteq> k" "k < m_startPointModel b"
    | (top) "m_loopPointModel b = 1" "m_endPointModel b = 1" "m_startPointModel b \<le> k"
    | (top') "m_loopPointModel b = 1" "m_endPointModel b = 1" "k < m_startPointModel b"
    | (top2) "m_loopPointModel b = 1" "m_endPointModel b < 1"
    using assms by linarith
  then show ?thesis
  proof cases
    case low
    with assms p k show ?thesis
      unfolding p_def [symmetric] k_def [symmetric]
      by (subst loopPointChanged.simps)
         (simp add: pointChanged_resolved fittedValue_def spc_stable Let_def
            p_def [symmetric] k_def [symmetric])
  next
    case edge
    then have "f32 (k + eps32) = p"
      by (simp add: p_def)
    with edge assms p k show ?thesis
      unfolding p_def [symmetric] k_def [symmetric]
      by (subst loopPointChanged.simps)
         (simp add: pointChanged_resolved fittedValue_def spc_stable Let_def
            p_def [symmetric] k_def [symmetric])
  next
    case high
    with assms p k show ?thesis
      unfolding p_def [symmetric] k_def [symmetric]
      by (subst loopPointChanged.simps)
         (simp add: pointChanged_resolved fittedValue_def spc_stable lpc_stable Let_def
            p_def [symmetric] k_def [symmetric])
  next
    case high'
    with assms p k show ?thesis
      unfolding p_def [symmetric] k_def [symmetric]
      by (subst loopPointChanged.simps)
         (simp add: pointChanged_resolved fittedValue_def spc_stable lpc_pull_start Let_def
            p_def [symmetric] k_def [symmetric])
  next
    case top
    with assms p k p1 show ?thesis
      unfolding p_def [symmetric] k_def [symmetric]
      by (subst loopPointChanged.simps)
         (simp add: pointChanged_resolved fittedValue_def lpc_stable Let_def
            k_def [symmetric])
  next
    case top'
    with assms p k p1 show ?thesis
      unfolding p_def [symmetric] k_def [symmetric]
      by (subst loopPointChanged.simps)
         (simp add: pointChanged_resolved fittedValue_def lpc_pull_start Let_def
            k_def [symmetric])
  next
    case top2
    with assms p k p1 show ?thesis
      unfolding p_def [symmetric] k_def [symmetric]
      by (subst loopPointChanged.simps)
         (simp add: pointChanged_resolved fittedValue_def spc_loop_above_end Let_def min_def
            k_def [symmetric])
  qed
qed


lemma spc_collapsed_loop_below:
  assumes "m_startPointModel b = m_endPointModel b" "m_loopPointModel b < m_startPointModel b"
    "0 \<le> m_startPointModel b" "m_startPointModel b \<le> 1"
  shows "startPointChanged (Suc (Suc (Suc (Suc n)))) b =
     Some (let x = m_startPointModel b;
               e' = min (f32 (x + eps32)) 1;
               l' = (if e' = 1 then f32 (1 - eps32) else x);
               s' = (if l' < x then l' else x)
           in resolved s' e' l' b)"
proof -
  define k where "k = f32 (1 - eps32)"
  have k: "0 < k" "k < 1"
    using one_minus_eps32_bounds by (simp_all add: k_def)
  define p where "p = f32 (m_endPointModel b + eps32)"
  have p: "m_endPointModel b < p"
    using plus_eps32_gt [of "m_endPointModel b"] assms by (simp add: p_def)
  from assms k p show ?thesis
    unfolding k_def [symmetric]
    apply (subst startPointChanged.simps)
    apply (simp add: pointChanged_resolved fittedValue_id lpc_push_end Let_def
        k_def [symmetric] p_def [symmetric])
    done
qed

lemma spc_collapsed_loop_above:
  assumes "m_startPointModel b = m_endPointModel b" "m_startPointModel b \<le> m_loopPointModel b"
    "0 \<le> m_startPointModel b" "m_loopPointModel b \<le> 1"
  shows "startPointChanged (Suc (Suc (Suc (Suc n)))) b =
     Some (if m_startPointModel b = 0 then resolved 0 eps32 0 b
           else resolved (max (f32 (m_startPointModel b - eps32)) 0) (m_startPointModel b)
                  (max (f32 (m_startPointModel b - eps32)) 0) b)"
proof -
  consider (zero) "m_startPointModel b = 0" "m_loopPointModel b = 0"
    | (zero') "m_startPointModel b = 0" "0 < m_loopPointModel b"
    | (pos) "0 < m_startPointModel b"
    using assms by linarith
  then show ?thesis
  proof cases
    case zero
    with assms eps32_pos show ?thesis
      apply (subst startPointChanged.simps)
      apply (simp add: pointChanged_resolved fittedValue_def spc_stable Let_def
          nudged_down_zero nudged_up_zero)
      done
  next
    case zero'
    with assms eps32_pos show ?thesis
      apply (subst startPointChanged.simps)
      apply (simp add: pointChanged_resolved fittedValue_def lpc_push_end Let_def
          nudged_down_zero nudged_up_zero)
      done
  next
    case pos
    define l2 where "l2 = max (f32 (m_startPointModel b - eps32)) 0"
    have l2: "0 \<le> l2" "l2 \<le> 1" "l2 < m_startPointModel b" "l2 \<noteq> m_loopPointModel b"
      "l2 < m_endPointModel b"
      using assms pos nudged_down [of "m_startPointModel b"] by (auto simp: l2_def)
    have l2': "max (f32 (m_endPointModel b - eps32)) 0 = l2"
      using assms by (simp add: l2_def)
    from assms pos l2 show ?thesis
      unfolding l2_def [symmetric]
      apply (subst startPointChanged.simps)
      apply (simp add: pointChanged_resolved fittedValue_id lpc_pull_start l2')
      done
  qed
qed

lemma setLoopPoint_resolves:
  assumes "markers_ok a" "in_model_range a"
  shows "setLoopPoint (Suc (Suc (Suc (Suc n)))) v a =
     Some (let l = fittedValue v in
           if l = m_loopPointModel a then a
           else let e' = (if m_endPointModel a \<le> l then min (f32 (l + eps32)) 1
                          else m_endPointModel a);
                    l' = (if m_endPointModel a \<le> l \<and> e' = 1 then f32 (1 - eps32) else l);
                    s' = (if l' < m_startPointModel a then l' else m_startPointModel a)
                in resolved s' e' l' a)"
proof -
  define l where "l = fittedValue v"
  have l: "0 \<le> l" "l \<le> 1" by (simp_all add: l_def fittedValue_def)
  consider (same) "l = m_loopPointModel a"
    | (above) "l \<noteq> m_loopPointModel a" "m_endPointModel a \<le> l"
    | (below) "l \<noteq> m_loopPointModel a" "l < m_endPointModel a" "l < m_startPointModel a"
    | (between) "l \<noteq> m_loopPointModel a" "l < m_endPointModel a" "m_startPointModel a \<le> l"
    by linarith
  then show ?thesis
  proof cases
    case same
    then show ?thesis by (simp add: l_def [symmetric])
  next
    case above
    with assms l show ?thesis
      by (simp add: l_def [symmetric] markers_ok_def in_model_range_def lpc_push_end Let_def)
  next
    case below
    with assms l show ?thesis
      by (simp add: l_def [symmetric] markers_ok_def in_model_range_def lpc_pull_start Let_def)
  next
    case between
    with assms l show ?thesis
      by (simp add: l_def [symmetric] markers_ok_def in_model_range_def lpc_stable Let_def)
  qed
qed

lemma resolved_ok [simp]:
  "markers_ok (resolved s e l a) \<longleftrightarrow> s < e \<and> s \<le> l \<and> l < e"
  "in_model_range (resolved s e l a) \<longleftrightarrow> 0 \<le> s \<and> s \<le> 1 \<and> 0 \<le> e \<and> e \<le> 1 \<and> 0 \<le> l \<and> l \<le> 1"
  by (simp_all add: markers_ok_def in_model_range_def)

lemma setStartPoint_keeps:
  assumes "markers_ok a" "in_model_range a"
  shows "\<exists>a'. setStartPoint (Suc (Suc (Suc (Suc (Suc (Suc n)))))) v a = Some a' \<and>
            markers_ok a' \<and> in_model_range a'"
proof -
  define x where "x = fittedValue v"
  have x: "0 \<le> x" "x \<le> 1" by (simp_all add: x_def fittedValue_def)
  define k where "k = f32 (1 - eps32)"
  have k: "0 < k" "k < 1" "0 \<le> k" "k \<le> 1"
    using one_minus_eps32_bounds by (simp_all add: k_def)
  define p where "p = f32 (x + eps32)"
  have p: "x < p" "0 < p" "0 \<le> p"
    using plus_eps32_gt [OF x] x by (simp_all add: p_def)
  note defs = markers_ok_def in_model_range_def
  consider (same) "x = m_startPointModel a"
    | (below) "x \<noteq> m_startPointModel a" "x < m_endPointModel a" "x \<le> m_loopPointModel a"
    | (between) "x \<noteq> m_startPointModel a" "x < m_endPointModel a" "m_loopPointModel a < x"
    | (at_end) "x = m_endPointModel a"
    | (above) "m_endPointModel a < x" "p < 1"
    | (above_low) "m_endPointModel a < x" "1 \<le> p" "x \<le> k"
    | (above_top1) "m_endPointModel a < x" "1 \<le> p" "k < x" "m_endPointModel a = k"
    | (above_top2) "m_endPointModel a < x" "1 \<le> p" "k < x" "m_endPointModel a < k"
    | (above_top3) "m_endPointModel a < x" "1 \<le> p" "k < x" "k < m_endPointModel a"
    by linarith
  then show ?thesis
  proof cases
    case same
    with assms show ?thesis by (simp add: x_def [symmetric])
  next
    case below
    with assms x show ?thesis
      by (simp add: x_def [symmetric] defs spc_stable)
  next
    case between
    with assms x show ?thesis
      by (simp add: x_def [symmetric] defs spc_push_loop)
  next
    case at_end
    then have "f32 (m_endPointModel a + eps32) = p"
      by (simp add: p_def)
    with at_end assms x k p show ?thesis
      apply (simp add: x_def [symmetric] defs spc_collapsed_loop_below Let_def
          k_def [symmetric])
      apply (auto simp: min_def split: if_splits)
      done
  next
    case above
    with assms x k p show ?thesis
      apply (simp add: x_def [symmetric] defs)
      apply (subst startPointChanged.simps)
      apply (simp add: pointChanged_resolved fittedValue_id spc_collapsed_loop_below spc_stable
          Let_def k_def [symmetric] p_def [symmetric])
      done
  next
    case above_low
    with assms x k p show ?thesis
      apply (simp add: x_def [symmetric] defs)
      apply (subst startPointChanged.simps)
      apply (simp add: pointChanged_resolved fittedValue_id spc_collapsed_loop_below spc_stable
          Let_def k_def [symmetric] p_def [symmetric])
      done
  next
    case above_top1
    with assms x k p show ?thesis
      apply (simp add: x_def [symmetric] defs)
      apply (subst startPointChanged.simps)
      apply (simp add: pointChanged_resolved fittedValue_id spc_collapsed_loop_below spc_stable
          Let_def k_def [symmetric] p_def [symmetric])
      done
  next
    case above_top2
    with assms x k p show ?thesis
      apply (simp add: x_def [symmetric] defs)
      apply (subst startPointChanged.simps)
      apply (simp add: pointChanged_resolved fittedValue_id spc_collapsed_loop_below spc_stable
          Let_def k_def [symmetric] p_def [symmetric])
      done
  next
    case above_top3
    with assms x k p show ?thesis
      apply (simp add: x_def [symmetric] defs)
      apply (subst startPointChanged.simps)
      apply (simp add: pointChanged_resolved fittedValue_id spc_collapsed_loop_below spc_push_loop
          Let_def k_def [symmetric] p_def [symmetric])
      done
  qed
qed

lemma setEndPoint_keeps:
  assumes "markers_ok a" "in_model_range a"
  shows "\<exists>a'. setEndPoint (Suc (Suc (Suc (Suc (Suc (Suc n)))))) v a = Some a' \<and>
            markers_ok a' \<and> in_model_range a'"
proof -
  define x where "x = fittedValue v"
  have x: "0 \<le> x" "x \<le> 1" by (simp_all add: x_def fittedValue_def)
  note defs = markers_ok_def in_model_range_def
  have s: "0 \<le> m_startPointModel a" "m_startPointModel a \<le> 1"
    using assms by (simp_all add: defs)
  define l2 where "l2 = max (f32 (m_startPointModel a - eps32)) 0"
  have l2: "0 \<le> l2" "l2 \<le> 1" "l2 \<le> m_startPointModel a"
    "0 < m_startPointModel a \<Longrightarrow> l2 < m_startPointModel a"
    using nudged_down [OF s] by (simp_all add: l2_def)
  define lx where "lx = max (f32 (x - eps32)) 0"
  have lx: "0 \<le> lx" "lx \<le> 1" "lx \<le> x" "0 < x \<Longrightarrow> lx < x"
    using nudged_down [OF x] by (simp_all add: lx_def)
  consider (same) "x = m_endPointModel a"
    | (above) "x \<noteq> m_endPointModel a" "m_startPointModel a < x" "m_loopPointModel a < x"
    | (above') "x \<noteq> m_endPointModel a" "m_startPointModel a < x" "x \<le> m_loopPointModel a"
    | (at_start) "x = m_startPointModel a"
    | (below1) "x < m_startPointModel a" "x = l2"
    | (below2) "x < m_startPointModel a" "x < l2"
    | (below3) "x < m_startPointModel a" "l2 < x"
    by linarith
  then show ?thesis
  proof cases
    case same
    with assms show ?thesis by (simp add: x_def [symmetric])
  next
    case above
    with assms x show ?thesis
      by (simp add: x_def [symmetric] defs spc_stable)
  next
    case above'
    with assms x lx show ?thesis
      apply (simp add: x_def [symmetric] defs spc_loop_above_end lx_def [symmetric])
      apply (auto simp: min_def split: if_splits)
      done
  next
    case at_start
    with assms x l2 eps32_pos show ?thesis
      apply (simp add: x_def [symmetric] defs spc_collapsed_loop_above l2_def [symmetric])
      done
  next
    case below1
    with assms x l2 show ?thesis
      apply (simp add: x_def [symmetric] defs)
      apply (subst startPointChanged.simps)
      apply (simp add: pointChanged_resolved fittedValue_id spc_collapsed_loop_above
          l2_def [symmetric])
      done
  next
    case below2
    with assms x l2 show ?thesis
      apply (simp add: x_def [symmetric] defs)
      apply (subst startPointChanged.simps)
      apply (simp add: pointChanged_resolved fittedValue_id spc_collapsed_loop_above spc_stable
          l2_def [symmetric])
      done
  next
    case below3
    with assms x l2 show ?thesis
      apply (simp add: x_def [symmetric] defs)
      apply (subst startPointChanged.simps)
      apply (simp add: pointChanged_resolved fittedValue_id spc_collapsed_loop_above spc_push_loop
          l2_def [symmetric])
      done
  qed
qed

lemma pointEdit_keeps:
  assumes "markers_ok a" "in_model_range a"
  shows "\<exists>a'. pointEdit (Suc (Suc (Suc (Suc (Suc (Suc n)))))) x a = Some a' \<and>
            markers_ok a' \<and> in_model_range a'"
proof (cases x)
  case (SetStart v)
  with setStartPoint_keeps [OF assms] show ?thesis by simp
next
  case (SetEnd v)
  with setEndPoint_keeps [OF assms] show ?thesis by simp
next
  case (SetLoop v)
  define l where "l = fittedValue v"
  have l: "0 \<le> l" "l \<le> 1" by (simp_all add: l_def fittedValue_def)
  define k where "k = f32 (1 - eps32)"
  have k: "0 < k" "k < 1" "0 \<le> k" "k \<le> 1"
    using one_minus_eps32_bounds by (simp_all add: k_def)
  define p where "p = f32 (l + eps32)"
  have p: "l < p" "0 < p" "0 \<le> p"
    using plus_eps32_gt [OF l] l by (simp_all add: p_def)
  from assms SetLoop l k p show ?thesis
    apply (simp add: setLoopPoint_resolves [OF assms] Let_def l_def [symmetric]
        k_def [symmetric] p_def [symmetric] del: setLoopPoint.simps)
    apply (auto simp: markers_ok_def in_model_range_def min_def)
    done
qed

lemma AudioFileProcessor_new_ok: "markers_ok AudioFileProcessor_new" "in_model_range AudioFileProcessor_new"
  by (simp_all add: AudioFileProcessor_new_def markers_ok_def in_model_range_def pointChanged_def Let_def)

lemma AudioFileProcessor_new_current: "frames_current AudioFileProcessor_new"
  by (simp add: frames_current_def AudioFileProcessor_new_def pointChanged_def Let_def
      setAllPointFrames_def)

lemma AudioFileProcessor_new_fields [simp]:
  "m_startPointModel AudioFileProcessor_new = 0"
  "m_endPointModel AudioFileProcessor_new = 1"
  "m_loopPointModel AudioFileProcessor_new = 0"
  "sampleSize (m_sample AudioFileProcessor_new) = 0"
  by (simp_all add: AudioFileProcessor_new_def pointChanged_def Let_def setAllPointFrames_def)

lemma sample_resolved:
  "m_sample (resolved s e l a) =
     setAllPointFrames (to_f_cnt_t (f32 (s * f32 (real (sampleSize (m_sample a))))))
       (to_f_cnt_t (f32 (e * f32 (real (sampleSize (m_sample a))))))
       (to_f_cnt_t (f32 (l * f32 (real (sampleSize (m_sample a))))))
       (to_f_cnt_t (f32 (e * f32 (real (sampleSize (m_sample a)))))) (m_sample a)"
  by (simp add: resolved_def pointChanged_def Let_def)

lemma frames_current_sample:
  "frames_current a \<Longrightarrow>
   m_sample a =
     setAllPointFrames (to_f_cnt_t (f32 (m_startPointModel a * f32 (real (sampleSize (m_sample a))))))
       (to_f_cnt_t (f32 (m_endPointModel a * f32 (real (sampleSize (m_sample a))))))
       (to_f_cnt_t (f32 (m_loopPointModel a * f32 (real (sampleSize (m_sample a))))))
       (to_f_cnt_t (f32 (m_endPointModel a * f32 (real (sampleSize (m_sample a)))))) (m_sample a)"
  by (simp add: frames_current_def pointChanged_def Let_def)

lemma frames_current_resolved: "frames_current (resolved s e l a)"
  by (simp add: frames_current_def resolved_def pointChanged_def Let_def setAllPointFrames_def)

lemma setAudioFile_new:
  "setAudioFile n smp AudioFileProcessor_new =
     Some (resolved 0 1 0 (AudioFileProcessor_new\<lparr>m_sample := smp\<rparr>))"
  by (simp add: setAudioFile_def lpc_stable AudioFileProcessor_new_def pointChanged_def
      resolved_def Let_def setAllPointFrames_def)

text \<open>
  Claim C1. Start from an instrument whose normalized markers are in the model range and
  ordered (the constructor leaves such an instrument). Then every sequence of marker
  edits, each run with its nested slots to completion, returns, and the markers it leaves
  satisfy start < end and start \<le> loop < end. A nesting depth of six suffices for every
  edit. The nested runs matter: setting the start of a new instrument to 1 makes start and
  end equal at 1, where the end cannot be nudged up; the slot of the loop marker then pulls
  the loop marker, and with it the start, back to \<^verbatim>\<open>1.0f - 0.001f\<close>. The rounding
  matters too: \<^verbatim>\<open>0.998f + 0.001f\<close> is \<^verbatim>\<open>0.999f\<close> and
  \<^verbatim>\<open>0.999f + 0.001f\<close> is 1, so setting the end to \<^verbatim>\<open>0.998f\<close> and the loop
  marker to \<^verbatim>\<open>0.998f\<close> and then to \<^verbatim>\<open>0.999f\<close> leaves the end at 1 and
  the loop marker at \<^verbatim>\<open>0.999f\<close>. The order holds because a nudge by
  \<^verbatim>\<open>0.001f\<close> moves every marker in [0, 1] strictly, whatever the rounding.
\<close>

theorem pointEdits_keep_markers_ordered:
  assumes "markers_ok a" "in_model_range a" "6 \<le> n"
  shows "\<exists>a'. pointEdits n edits a = Some a' \<and> markers_ok a' \<and> in_model_range a'"
  using assms(1,2)
proof (induction edits arbitrary: a)
  case Nil
  then show ?case by simp
next
  case (Cons x xs)
  from \<open>6 \<le> n\<close> obtain m where "n = 6 + m"
    by (auto simp: le_iff_add)
  then have n: "n = Suc (Suc (Suc (Suc (Suc (Suc m)))))"
    by simp
  from pointEdit_keeps [OF Cons.prems, of m x] obtain a1
    where a1: "pointEdit n x a = Some a1" "markers_ok a1" "in_model_range a1"
    unfolding n by blast
  from Cons.IH [OF a1(2,3)] a1(1) show ?case by simp
qed

theorem pointEdits_keep_markers_ordered_witness:
  "markers_ok AudioFileProcessor_new \<and> in_model_range AudioFileProcessor_new \<and> (6::nat) \<le> 6 \<and>
   pointEdits 6 [SetStart 1] AudioFileProcessor_new =
     Some (resolved (16760439/16777216) 1 (16760439/16777216) AudioFileProcessor_new) \<and>
   f32 (998/1000) = 8371831/8388608 \<and> f32 (999/1000) = 16760439/16777216 \<and>
   pointEdits 6 [SetEnd (8371831/8388608), SetLoop (8371831/8388608), SetLoop (16760439/16777216)]
       AudioFileProcessor_new =
     Some (resolved 0 1 (16760439/16777216) AudioFileProcessor_new) \<and>
   (\<exists>a'. pointEdits 6 [SetStart 1, SetEnd 0, SetLoop (1/2), SetStart (3/4)]
            AudioFileProcessor_new = Some a' \<and>
      markers_ok a' \<and> in_model_range a')"
proof -
  have six: "(6::nat) = Suc (Suc (Suc (Suc (Suc (Suc 0)))))"
    by simp
  have one: "pointEdits 6 [SetStart 1] AudioFileProcessor_new =
     Some (resolved (16760439/16777216) 1 (16760439/16777216) AudioFileProcessor_new)"
    unfolding six
    by (simp add: fittedValue_def spc_collapsed_loop_below Let_def f32_one_plus_eps32
        one_minus_eps32)
  have e1: "setEndPoint 6 (8371831/8388608) AudioFileProcessor_new =
     Some (resolved 0 (8371831/8388608) 0 AudioFileProcessor_new)"
    unfolding six by (simp add: fittedValue_def spc_stable)
  have e2: "setLoopPoint 6 (8371831/8388608) (resolved 0 (8371831/8388608) 0 AudioFileProcessor_new) =
     Some (resolved 0 (16760439/16777216) (8371831/8388608) AudioFileProcessor_new)"
    unfolding six
    by (subst setLoopPoint_resolves)
       (simp_all add: fittedValue_def Let_def f32_998_plus_eps32)
  have e3: "setLoopPoint 6 (16760439/16777216)
       (resolved 0 (16760439/16777216) (8371831/8388608) AudioFileProcessor_new) =
     Some (resolved 0 1 (16760439/16777216) AudioFileProcessor_new)"
    unfolding six
    by (subst setLoopPoint_resolves)
       (simp_all add: fittedValue_def Let_def f32_999_plus_eps32 one_minus_eps32)
  have trace: "pointEdits 6
       [SetEnd (8371831/8388608), SetLoop (8371831/8388608), SetLoop (16760439/16777216)]
       AudioFileProcessor_new =
     Some (resolved 0 1 (16760439/16777216) AudioFileProcessor_new)"
    by (simp add: e1 e2 e3 del: setEndPoint.simps setLoopPoint.simps)
  from pointEdits_keep_markers_ordered
    [of AudioFileProcessor_new 6 "[SetStart 1, SetEnd 0, SetLoop (1/2), SetStart (3/4)]"]
    one trace f32_998 f32_999
  show ?thesis
    by (simp add: AudioFileProcessor_new_ok)
qed

text \<open>
  Claim C2. On an instrument with ordered markers and current frame markers, setting the
  loop marker to a value \<open>v\<close> in [0, 1] returns, and leaves what the rule says: when
  \<open>v\<close> is at or past the end, the end is the binary32 sum \<^verbatim>\<open>v + 0.001f\<close> clamped
  to 1, and the loop marker is \<^verbatim>\<open>1.0f - 0.001f\<close> when that end is exactly 1;
  otherwise the loop marker is \<open>v\<close>; the start is pulled down to the loop marker when
  the loop marker is below it; and the four frame markers are the ones computed from these
  values, each the binary32 product of the marker and the frame count, truncated. On a
  sample of 625 frames with the markers 0, 3/8, 0, setting the loop marker to 3/8 gives
  the end 6308233/16777216, just below 0.376, whose product with 625 rounds to a number
  just below 235: the end frame is 234, the frame of the loop marker.
\<close>

theorem setLoopPoint_resolves_as_specified:
  assumes "markers_ok a" "in_model_range a" "frames_current a" "0 \<le> v" "v \<le> 1" "4 \<le> n"
  shows "\<exists>a'. setLoopPoint n v a = Some a' \<and>
     (let e' = (if m_endPointModel a \<le> v then min (f32 (v + eps32)) 1 else m_endPointModel a);
          l' = (if m_endPointModel a \<le> v \<and> e' = 1 then f32 (1 - eps32) else v);
          s' = (if l' < m_startPointModel a then l' else m_startPointModel a);
          frames = f32 (real (sampleSize (m_sample a)))
      in m_endPointModel a' = e' \<and> m_loopPointModel a' = l' \<and> m_startPointModel a' = s' \<and>
         m_sample a' =
           setAllPointFrames (to_f_cnt_t (f32 (s' * frames))) (to_f_cnt_t (f32 (e' * frames)))
             (to_f_cnt_t (f32 (l' * frames))) (to_f_cnt_t (f32 (e' * frames))) (m_sample a))"
proof -
  from \<open>4 \<le> n\<close> obtain m where "n = 4 + m"
    by (auto simp: le_iff_add)
  then have n: "n = Suc (Suc (Suc (Suc m)))"
    by simp
  have v: "fittedValue v = v"
    using assms(4,5) by (simp add: fittedValue_def)
  show ?thesis
  proof (cases "v = m_loopPointModel a")
    case True
    with assms(1) frames_current_sample [OF assms(3)] show ?thesis
      unfolding n setLoopPoint_resolves [OF assms(1,2)] v
      by (simp add: markers_ok_def Let_def)
  next
    case False
    then show ?thesis
      unfolding n setLoopPoint_resolves [OF assms(1,2)] v
      by (simp add: Let_def sample_resolved)
  qed
qed

theorem setLoopPoint_resolves_as_specified_witness:
  "markers_ok (resolved 0 (3/8) 0 (AudioFileProcessor_new\<lparr>m_sample := sample_625\<rparr>)) \<and>
   in_model_range (resolved 0 (3/8) 0 (AudioFileProcessor_new\<lparr>m_sample := sample_625\<rparr>)) \<and>
   frames_current (resolved 0 (3/8) 0 (AudioFileProcessor_new\<lparr>m_sample := sample_625\<rparr>)) \<and>
   (0::real) \<le> 3/8 \<and> (3/8::real) \<le> 1 \<and> (4::nat) \<le> 4 \<and>
   (\<exists>a'. setLoopPoint 4 (3/8) (resolved 0 (3/8) 0 (AudioFileProcessor_new\<lparr>m_sample := sample_625\<rparr>))
            = Some a' \<and>
      m_endPointModel a' = 6308233/16777216 \<and> m_loopPointModel a' = 3/8 \<and>
      m_startPointModel a' = 0 \<and>
      startFrame (m_sample a') = 0 \<and> endFrame (m_sample a') = 234 \<and>
      loopStartFrame (m_sample a') = 234 \<and> loopEndFrame (m_sample a') = 234)"
proof -
  let ?a = "resolved 0 (3/8) 0 (AudioFileProcessor_new\<lparr>m_sample := sample_625\<rparr>)"
  have size: "sampleSize (m_sample ?a) = 625"
    by (simp add: sample_resolved setAllPointFrames_def sample_625_def)
  from setLoopPoint_resolves_as_specified [of ?a "3/8" 4]
  obtain a' where a': "setLoopPoint 4 (3/8) ?a = Some a'"
    "m_endPointModel a' = 6308233/16777216" "m_loopPointModel a' = 3/8"
    "m_startPointModel a' = 0"
    "m_sample a' = setAllPointFrames 0 234 234 234 (m_sample ?a)"
    unfolding Let_def size
    by (auto simp add: frames_current_resolved f32_three_eighths_plus_eps32 f32_625
        f32_end_frame_625 f32_loop_frame_625 to_f_cnt_t_def
        simp del: setLoopPoint.simps)
  show ?thesis
    apply (simp add: frames_current_resolved del: setLoopPoint.simps)
    apply (rule exI [of _ a'])
    apply (simp add: a' setAllPointFrames_def del: setLoopPoint.simps)
    done
qed

text \<open>
  Claim C8. Setting the start marker to the value it has changes nothing at all: the value
  does not change, so no slot runs. And when the markers are ordered and the frame markers
  current, running the conflict resolution itself on the unchanged start leaves the three
  normalized markers and the four frame markers as they are.
\<close>

theorem setStartPoint_own_value_changes_nothing:
  assumes "in_model_range a"
  shows "setStartPoint n (m_startPointModel a) a = Some a \<and>
         (markers_ok a \<and> frames_current a \<longrightarrow>
            (\<exists>a'. startPointChanged n a = Some a' \<and>
               m_startPointModel a' = m_startPointModel a \<and>
               m_endPointModel a' = m_endPointModel a \<and>
               m_loopPointModel a' = m_loopPointModel a \<and>
               m_sample a' = m_sample a))"
proof
  have "fittedValue (m_startPointModel a) = m_startPointModel a"
    using assms by (simp add: in_model_range_def fittedValue_def)
  then show "setStartPoint n (m_startPointModel a) a = Some a"
    by (cases n) simp_all
next
  show "markers_ok a \<and> frames_current a \<longrightarrow>
            (\<exists>a'. startPointChanged n a = Some a' \<and>
               m_startPointModel a' = m_startPointModel a \<and>
               m_endPointModel a' = m_endPointModel a \<and>
               m_loopPointModel a' = m_loopPointModel a \<and>
               m_sample a' = m_sample a)"
  proof
    assume h: "markers_ok a \<and> frames_current a"
    then have "startPointChanged n a =
        Some (resolved (m_startPointModel a) (m_endPointModel a) (m_loopPointModel a) a)"
      by (simp add: spc_stable markers_ok_def)
    moreover have "m_sample (resolved (m_startPointModel a) (m_endPointModel a)
        (m_loopPointModel a) a) = m_sample a"
      using h by (simp add: frames_current_def resolved_def)
    ultimately show "\<exists>a'. startPointChanged n a = Some a' \<and>
               m_startPointModel a' = m_startPointModel a \<and>
               m_endPointModel a' = m_endPointModel a \<and>
               m_loopPointModel a' = m_loopPointModel a \<and>
               m_sample a' = m_sample a"
      by simp
  qed
qed

theorem setStartPoint_own_value_changes_nothing_witness:
  "in_model_range AudioFileProcessor_new \<and> markers_ok AudioFileProcessor_new \<and>
   frames_current AudioFileProcessor_new \<and>
   setStartPoint 2 (m_startPointModel AudioFileProcessor_new) AudioFileProcessor_new =
     Some AudioFileProcessor_new \<and>
   (\<exists>a'. startPointChanged 2 AudioFileProcessor_new = Some a' \<and>
      m_startPointModel a' = m_startPointModel AudioFileProcessor_new \<and>
      m_endPointModel a' = m_endPointModel AudioFileProcessor_new \<and>
      m_loopPointModel a' = m_loopPointModel AudioFileProcessor_new \<and>
      m_sample a' = m_sample AudioFileProcessor_new)"
  using setStartPoint_own_value_changes_nothing [of AudioFileProcessor_new 2]
  by (simp add: AudioFileProcessor_new_ok AudioFileProcessor_new_current)

text \<open>
  Claim C9. Load a sample of ten frames into a new instrument and set the end marker to 0.
  The start equals the end, so the end is nudged up by \<^verbatim>\<open>0.001f\<close>: the normalized
  markers are 0 < \<^verbatim>\<open>0.001f\<close>, and both the start frame and the end frame are
  frame 0.
\<close>

theorem short_sample_frames_collapse:
  "\<exists>a1 a'. setAudioFile 6 ten_frames AudioFileProcessor_new = Some a1 \<and>
      setEndPoint 6 0 a1 = Some a' \<and>
      m_startPointModel a' = 0 \<and> m_endPointModel a' = eps32 \<and>
      m_startPointModel a' < m_endPointModel a' \<and>
      sampleSize (m_sample a') = 10 \<and>
      startFrame (m_sample a') = 0 \<and> endFrame (m_sample a') = 0"
proof -
  let ?a1 = "resolved 0 1 0 (AudioFileProcessor_new\<lparr>m_sample := ten_frames\<rparr>)"
  let ?a' = "resolved 0 eps32 0 ?a1"
  have six: "(6::nat) = Suc (Suc (Suc (Suc (Suc (Suc 0)))))"
    by simp
  have "setEndPoint 6 0 ?a1 = Some ?a'"
    unfolding six by (simp add: fittedValue_def spc_collapsed_loop_above)
  moreover have "to_f_cnt_t (f32 (eps32 * 10)) = 0"
    by (rule small_frame) (simp_all add: eps32_value)
  then have "startFrame (m_sample ?a') = 0" "endFrame (m_sample ?a') = 0"
    "sampleSize (m_sample ?a') = 10"
    by (simp_all add: sample_resolved setAllPointFrames_def ten_frames_def f32_10 to_f_cnt_t_def)
  ultimately show ?thesis
    using setAudioFile_new [of 6 ten_frames] eps32_pos
    by (intro exI [of _ ?a1] exI [of _ ?a']) simp
qed

section \<open>Stutter mode and the magic key\<close>

text \<open>
  Claim C3. In stutter mode, a call of \<open>playNote\<close> that is not the magic key leaves
  the cursor and the direction of the note's playback state in the continuation point.
  A next note that has no playback state yet, and is not the magic key either, is then
  played exactly as a note whose playback state starts at that cursor with that direction,
  or at the start frame, forwards, when the cursor is at or past the end frame.
\<close>

theorem stutter_continues_across_notes:
  assumes "m_stutterModel a" "\<not> frequency n1 < 20" "\<not> frequency n2 < 20"
    and "m_pluginData n2 = None"
    and "playNote play rel a n1 buf1 = (a', n1', buf1', sig1)"
  shows "\<exists>ps. m_pluginData n1' = Some ps \<and>
           m_nextPlayStartPoint a' = frameIndex ps \<and>
           m_nextPlayBackwards a' = backwards ps \<and>
           playNote play rel a' n2 buf2 =
           playNote play rel a'
             (n2\<lparr>m_pluginData := Some
                \<lparr>frameIndex = (if endFrame (m_sample a') \<le> frameIndex ps
                                then startFrame (m_sample a') else frameIndex ps),
                 backwards = (if endFrame (m_sample a') \<le> frameIndex ps
                               then False else backwards ps),
                 varyingPitch = hasDetuningInfo n2,
                 interpolationMode = interpolationMode (snd (newPlaybackState a' n2))\<rparr>\<rparr>) buf2"
proof -
  from assms(1,2,5) have "\<exists>ps. m_pluginData n1' = Some ps \<and>
      m_nextPlayStartPoint a' = frameIndex ps \<and> m_nextPlayBackwards a' = backwards ps \<and>
      m_stutterModel a'"
    by (auto simp: playNote_def playNote_render_def notePlaybackState_def newPlaybackState_def
        Let_def split: option.splits prod.splits if_splits)
  then obtain ps where ps: "m_pluginData n1' = Some ps"
    "m_nextPlayStartPoint a' = frameIndex ps" "m_nextPlayBackwards a' = backwards ps"
    "m_stutterModel a'"
    by blast
  from ps(4) assms(3,4) have "playNote play rel a' n2 buf2 =
           playNote play rel a'
             (n2\<lparr>m_pluginData := Some
                \<lparr>frameIndex = (if endFrame (m_sample a') \<le> m_nextPlayStartPoint a'
                                then startFrame (m_sample a') else m_nextPlayStartPoint a'),
                 backwards = (if endFrame (m_sample a') \<le> m_nextPlayStartPoint a'
                               then False else m_nextPlayBackwards a'),
                 varyingPitch = hasDetuningInfo n2,
                 interpolationMode = interpolationMode (snd (newPlaybackState a' n2))\<rparr>\<rparr>) buf2"
    by (auto simp: playNote_def playNote_render_def notePlaybackState_def newPlaybackState_def
        Let_def split: option.splits prod.splits if_splits)
  with ps show ?thesis by simp
qed

lemma prod4_collapse: "x = (fst x, fst (snd x), fst (snd (snd x)), snd (snd (snd x)))"
  by simp

theorem stutter_continues_across_notes_witness:
  "m_stutterModel demo_instrument \<and> \<not> frequency demo_note < 20 \<and>
   m_pluginData demo_note = None \<and>
   (\<exists>ps. m_pluginData (fst (snd (playNote demo_play demo_release
              demo_instrument demo_note demo_buffer))) = Some ps \<and>
      frameIndex ps = 4 \<and>
      m_nextPlayStartPoint (fst (playNote demo_play demo_release
              demo_instrument demo_note demo_buffer)) = 4 \<and>
      playNote demo_play demo_release
        (fst (playNote demo_play demo_release demo_instrument demo_note demo_buffer))
        demo_note demo_buffer =
      playNote demo_play demo_release
        (fst (playNote demo_play demo_release demo_instrument demo_note demo_buffer))
        (demo_note\<lparr>m_pluginData := Some
           \<lparr>frameIndex = 4, backwards = False, varyingPitch = False,
            interpolationMode = SRC_LINEAR\<rparr>\<rparr>) demo_buffer)"
proof -
  let ?r = "playNote demo_play demo_release demo_instrument demo_note demo_buffer"
  have h: "m_stutterModel demo_instrument" "\<not> frequency demo_note < 20"
    "m_pluginData demo_note = None"
    by (simp_all add: demo_instrument_def demo_note_def)
  have r: "m_pluginData (fst (snd ?r)) = Some
      \<lparr>frameIndex = 4, backwards = False, varyingPitch = False, interpolationMode = SRC_LINEAR\<rparr>"
    "m_sample (fst ?r) = ten_frames" "m_interpolationModel (fst ?r) = 1"
    by (simp_all add: playNote_def playNote_render_def notePlaybackState_def newPlaybackState_def
        demo_play_def demo_instrument_def demo_note_def ten_frames_def Let_def)
  from stutter_continues_across_notes [OF h(1) h(2) h(2) h(3) prod4_collapse [of ?r],
      of demo_buffer] r h
  show ?thesis
    by (auto simp: ten_frames_def newPlaybackState_def Let_def demo_note_def)
qed

text \<open>
  Claim C4. In stutter mode a note below 20 Hz is the magic key: the call sets the
  continuation point to the start frame, forwards, and returns; the note keeps its plugin
  data as it was, so no playback state is created, the working buffer is left as it was,
  no signal is emitted, and the render call does not take part in the result. With stutter
  mode off the check does not apply, and the call is the ordinary playing of the note,
  whatever its frequency.
\<close>

theorem magic_key_resets_continuation:
  "(m_stutterModel a \<and> frequency n < 20 \<longrightarrow>
      playNote play rel a n buf =
        (a\<lparr>m_nextPlayStartPoint := startFrame (m_sample a), m_nextPlayBackwards := False\<rparr>,
         n, buf, None)) \<and>
   (\<not> m_stutterModel a \<longrightarrow>
      playNote play rel a n buf = playNote_render play rel a n buf)"
  by (simp add: playNote_def)

theorem magic_key_resets_continuation_witness:
  "m_stutterModel demo_instrument \<and> frequency (demo_note\<lparr>frequency := 10\<rparr>) < 20 \<and>
   playNote demo_play demo_release
       (demo_instrument\<lparr>m_nextPlayStartPoint := 7, m_nextPlayBackwards := True\<rparr>)
       (demo_note\<lparr>frequency := 10\<rparr>) demo_buffer =
     (demo_instrument, demo_note\<lparr>frequency := 10\<rparr>, demo_buffer, None) \<and>
   \<not> m_stutterModel (demo_instrument\<lparr>m_stutterModel := False\<rparr>) \<and>
   fst (snd (snd (playNote demo_play demo_release
       (demo_instrument\<lparr>m_stutterModel := False\<rparr>)
       (demo_note\<lparr>frequency := 10\<rparr>) demo_buffer))) 0 = (1, 1)"
proof -
  have "playNote demo_play demo_release
       (demo_instrument\<lparr>m_nextPlayStartPoint := 7, m_nextPlayBackwards := True\<rparr>)
       (demo_note\<lparr>frequency := 10\<rparr>) demo_buffer =
     (demo_instrument, demo_note\<lparr>frequency := 10\<rparr>, demo_buffer, None)"
    using magic_key_resets_continuation [of
        "demo_instrument\<lparr>m_nextPlayStartPoint := 7, m_nextPlayBackwards := True\<rparr>"
        "demo_note\<lparr>frequency := 10\<rparr>" demo_play demo_release demo_buffer]
    by (simp add: demo_instrument_def ten_frames_def)
  moreover have "fst (snd (snd (playNote demo_play demo_release
       (demo_instrument\<lparr>m_stutterModel := False\<rparr>)
       (demo_note\<lparr>frequency := 10\<rparr>) demo_buffer))) 0 = (1, 1)"
    using magic_key_resets_continuation [of
        "demo_instrument\<lparr>m_stutterModel := False\<rparr>"
        "demo_note\<lparr>frequency := 10\<rparr>" demo_play demo_release demo_buffer]
    by (simp add: playNote_render_def notePlaybackState_def newPlaybackState_def
        demo_play_def demo_instrument_def demo_note_def ten_frames_def
        demo_release_def write_frames_def Let_def)
  ultimately show ?thesis
    by (simp add: demo_instrument_def)
qed

section \<open>Exhaustion\<close>

lemma write_frames_nil [simp]: "write_frames buf offset [] = buf"
  by (auto simp: write_frames_def fun_eq_iff)



lemma notePlaybackState_period [simp]:
  "notePlaybackState a (n\<lparr>framesLeftForCurrentPeriod := frames, noteOffset := offset, frequency := freq\<rparr>)
     = notePlaybackState a n"
  by (simp add: notePlaybackState_def newPlaybackState_def Let_def split: option.splits)




section \<open>The device callback\<close>

lemma getNextBuffer_empty:
  "eng (enginePeriod st) = [] \<Longrightarrow>
   getNextBuffer eng st = (0, st\<lparr>enginePeriod := Suc (enginePeriod st)\<rparr>)"
  by (simp add: getNextBuffer_def)

lemma deliverFrames_avail:
  assumes "m_currentBufferFramePos st < m_currentBufferFramesCount st"
    "m_currentBufferFramesCount st \<le> length (m_outBuf st)"
    "8 dvd len" "0 < len"
    "deliverFrames gain len st = (chunk, len', st2)"
  shows "\<exists>m. 0 < m \<and> m \<le> length (avail st) \<and>
           chunk = map (scaleFrame gain) (take m (avail st)) \<and>
           pending st2 = drop m (avail st) \<and> len' = len - 8 * m \<and> 8 * m \<le> len \<and> 8 dvd len' \<and>
           sdl_ok st2 \<and> enginePeriod st2 = enginePeriod st"
proof -
  define pos where "pos = m_currentBufferFramePos st"
  define cnt where "cnt = m_currentBufferFramesCount st"
  define m where "m = min (len div 8) (cnt - pos)"
  have m: "0 < m" "pos + m \<le> cnt" "8 * m \<le> len"
    using assms(1,3,4) by (auto simp: m_def pos_def cnt_def)
  have chunk: "chunk = map (scaleFrame gain) (take m (avail st))"
    using assms(1,2,5) m
    by (auto simp: deliverFrames_def Let_def avail_def pos_def [symmetric] cnt_def [symmetric]
        m_def [symmetric] take_map drop_take)
  define buf where "buf = m_outBuf st"
  define buf' where "buf' = take pos buf @ map (scaleFrame gain) (take m (drop pos buf))
                   @ drop (pos + m) buf"
  have len: "cnt \<le> length buf" "pos < cnt"
    using assms(1,2) by (simp_all add: buf_def cnt_def pos_def)
  have st2: "st2 = st\<lparr>m_outBuf := buf', m_currentBufferFramePos := (pos + m) mod cnt\<rparr>"
    and len': "len' = len - 8 * m"
    using assms(5)
    by (auto simp: deliverFrames_def Let_def pos_def cnt_def m_def buf_def buf'_def mult.commute)
  have lbuf': "length buf' = length buf"
    using len m by (simp add: buf'_def)
  have dbuf': "drop (pos + m) buf' = drop (pos + m) buf"
    using len m by (simp add: buf'_def)
  have pend: "pending st2 = drop m (avail st)"
  proof (cases "pos + m = cnt")
    case True
    then have "(pos + m) mod cnt = 0" by simp
    with True len show ?thesis
      by (simp add: pending_def st2 avail_def pos_def [symmetric] cnt_def [symmetric]
          buf_def [symmetric] add.commute)
  next
    case False
    with m have lt: "pos + m < cnt" by simp
    then have md: "(pos + m) mod cnt = pos + m" by simp
    from m have nz: "pos + m \<noteq> 0" by simp
    have "drop (pos + m) (take cnt buf') = drop (pos + m) (take cnt buf)"
      by (simp add: drop_take dbuf')
    with md m(1) show ?thesis
      by (simp add: pending_def st2 cnt_def [symmetric] avail_def pos_def [symmetric]
          buf_def [symmetric] add.commute)
  qed
  have ok: "sdl_ok st2"
  proof (cases "pos + m = cnt")
    case True
    then show ?thesis by (simp add: sdl_ok_def st2)
  next
    case False
    with m have "pos + m < cnt" by simp
    with len lbuf' show ?thesis
      by (simp add: sdl_ok_def st2 cnt_def [symmetric])
  qed
  have "8 dvd len'"
    using assms(3) m(3) by (simp add: len')
  moreover have "m \<le> length (avail st)"
    using m len by (simp add: avail_def pos_def [symmetric] cnt_def [symmetric] buf_def [symmetric])
  ultimately show ?thesis
    using m chunk pend ok len' by (intro exI [of _ m]) (simp add: st2)
qed

lemma scaleFrame_one [simp]: "scaleFrame 1 f = f"
  by (simp add: scaleFrame_def)

lemma scaleFrame_zero [simp]: "scaleFrame 0 f = (0, 0)"
  by (simp add: scaleFrame_def)

lemma loop_delivers:
  assumes "sdl_ok st" "8 dvd len" "len div 8 < k"
  shows "\<exists>out st' fs z. sdlAudioCallback_loop k eng gain len st = Some (out, st') \<and>
           out = map (\<lambda>f. FrameBytes (scaleFrame gain f)) fs @ replicate z ZeroByte \<and>
           8 * length fs + z = len \<and>
           fs @ pending st' = pending st @ concat (map eng [enginePeriod st ..< enginePeriod st']) \<and>
           enginePeriod st \<le> enginePeriod st' \<and> sdl_ok st' \<and>
           (list_ex (\<lambda>i. eng i = []) [enginePeriod st ..< enginePeriod st'] \<longleftrightarrow> 0 < z) \<and>
           (0 < z \<longrightarrow> pending st' = [])"
  using assms
proof (induction k arbitrary: len st)
  case 0
  then show ?case by simp
next
  case (Suc k)
  show ?case
  proof (cases "len = 0")
    case True
    then show ?thesis
      using Suc.prems(1) by simp
  next
    case False
    then have pos: "0 < len" by simp
    show ?thesis
    proof (cases "m_currentBufferFramePos st = 0 \<and> eng (enginePeriod st) = []")
      case True
      with pos show ?thesis
        by (simp add: getNextBuffer_empty pending_def sdl_ok_def)
    next
      case False
      define st1 where "st1 = (if m_currentBufferFramePos st = 0
          then (snd (getNextBuffer eng st))\<lparr>m_currentBufferFramesCount := fst (getNextBuffer eng st)\<rparr>
          else st)"
      obtain chunk len' st2 where d: "deliverFrames gain len st1 = (chunk, len', st2)"
        by (cases "deliverFrames gain len st1") auto
      have st1: "m_currentBufferFramePos st1 < m_currentBufferFramesCount st1"
        "m_currentBufferFramesCount st1 \<le> length (m_outBuf st1)"
        "avail st1 = pending st @ concat (map eng [enginePeriod st ..< enginePeriod st1])"
        "enginePeriod st \<le> enginePeriod st1"
        "\<not> list_ex (\<lambda>i. eng i = []) [enginePeriod st ..< enginePeriod st1]"
        using False Suc.prems(1)
        by (auto simp: st1_def getNextBuffer_def Let_def sdl_ok_def avail_def pending_def)
      from deliverFrames_avail [OF st1(1,2) Suc.prems(2) pos d]
      obtain m where m: "0 < m" "m \<le> length (avail st1)" "chunk = map (scaleFrame gain) (take m (avail st1))"
        "pending st2 = drop m (avail st1)" "len' = len - 8 * m" "8 * m \<le> len" "8 dvd len'"
        "sdl_ok st2" "enginePeriod st2 = enginePeriod st1"
        by blast
      have "len' div 8 < k"
        using m(1,5,6) Suc.prems(3) by auto
      from Suc.IH [OF m(8,7) this]
      obtain out st' fs z where r: "sdlAudioCallback_loop k eng gain len' st2 = Some (out, st')"
        "out = map (\<lambda>f. FrameBytes (scaleFrame gain f)) fs @ replicate z ZeroByte"
        "8 * length fs + z = len'"
        "fs @ pending st' = pending st2 @ concat (map eng [enginePeriod st2 ..< enginePeriod st'])"
        "enginePeriod st2 \<le> enginePeriod st'" "sdl_ok st'"
        "list_ex (\<lambda>i. eng i = []) [enginePeriod st2 ..< enginePeriod st'] \<longleftrightarrow> 0 < z"
        "0 < z \<longrightarrow> pending st' = []"
        by blast
      have run: "sdlAudioCallback_loop (Suc k) eng gain len st =
          Some (map FrameBytes chunk @ out, st')"
        using False pos d r(1)
        by (auto simp: st1_def [symmetric] Let_def getNextBuffer_def)
      let ?fs = "take m (avail st1) @ fs"
      have out: "map FrameBytes chunk @ out =
          map (\<lambda>f. FrameBytes (scaleFrame gain f)) ?fs @ replicate z ZeroByte"
        by (simp add: m(3) r(2))
      have size: "8 * length ?fs + z = len"
        using m(2,5,6) r(3) by simp
      have upt: "[enginePeriod st ..< enginePeriod st'] =
          [enginePeriod st ..< enginePeriod st1] @ [enginePeriod st1 ..< enginePeriod st']"
        using st1(4) r(5) m(9) by (metis le_Suc_ex upt_add_eq_append)
      then have split: "concat (map eng [enginePeriod st ..< enginePeriod st']) =
          concat (map eng [enginePeriod st ..< enginePeriod st1]) @
          concat (map eng [enginePeriod st1 ..< enginePeriod st'])"
        by simp
      have "?fs @ pending st' = take m (avail st1) @ (fs @ pending st')"
        by simp
      also have "\<dots> = (take m (avail st1) @ drop m (avail st1)) @
          concat (map eng [enginePeriod st1 ..< enginePeriod st'])"
        unfolding r(4) m(4) m(9) by simp
      also have "\<dots> = avail st1 @ concat (map eng [enginePeriod st1 ..< enginePeriod st'])"
        by simp
      also have "\<dots> = pending st @ concat (map eng [enginePeriod st ..< enginePeriod st'])"
        unfolding st1(3) split by simp
      finally have "?fs @ pending st' =
          pending st @ concat (map eng [enginePeriod st ..< enginePeriod st'])" .
      moreover have "enginePeriod st \<le> enginePeriod st'"
        using st1(4) r(5) m(9) by simp
      moreover have "list_ex (\<lambda>i. eng i = []) [enginePeriod st ..< enginePeriod st'] \<longleftrightarrow> 0 < z"
        unfolding upt using st1(5) r(7) m(9) by simp
      ultimately show ?thesis
        using run out size r(6,8) by blast
    qed
  qed
qed




text \<open>
  Claim C6. Float variant, on a span of whole frames: the callback returns, and when a
  pull from the engine during the call gave zero frames, the callback has stored all
  frames it had and pulled, with the gain, and every byte of the span after them is zero.
  At the level of the loop, in both variants: at the pull that gives zero frames, with
  \<open>len\<close> bytes of the span left, the loop returns at once with \<open>len\<close> zero
  bytes. In the fixed-point variant the device is marked as stopped as well, and a stopped
  device answers a later callback with zeros without pulling from the engine.
\<close>

theorem zero_frames_silence_rest:
  "(sdl_ok st \<and> 8 dvd len \<and> len div 8 < k \<longrightarrow>
      (\<exists>out st'. sdlAudioCallback k eng gain len st = Some (out, st') \<and>
         (list_ex (\<lambda>i. eng i = []) [enginePeriod st ..< enginePeriod st'] \<longrightarrow>
            (let fs = pending st @ concat (map eng [enginePeriod st ..< enginePeriod st'])
             in 8 * length fs < len \<and>
                out = map (\<lambda>f. FrameBytes (scaleFrame gain f)) fs
                      @ replicate (len - 8 * length fs) ZeroByte)))) \<and>
   (0 < len \<and> m_currentBufferFramePos st = 0 \<and> eng (enginePeriod st) = [] \<longrightarrow>
      sdlAudioCallback_loop (Suc k) eng gain len st =
        Some (replicate len ZeroByte, st\<lparr>enginePeriod := Suc (enginePeriod st)\<rparr>)) \<and>
   (0 < len \<and> m_convertedBufPos st = 0 \<and> eng (enginePeriod st) = [] \<longrightarrow>
      sdlAudioCallback_s16_loop (Suc k) eng conv gain len st =
        Some (replicate len 0, st\<lparr>enginePeriod := Suc (enginePeriod st), m_stopped := True\<rparr>) \<and>
      sdlAudioCallback_s16 k' eng conv gain len'
          (st\<lparr>enginePeriod := Suc (enginePeriod st), m_stopped := True\<rparr>) =
        Some (replicate len' 0, st\<lparr>enginePeriod := Suc (enginePeriod st), m_stopped := True\<rparr>))"
proof (intro conjI impI)
  assume h: "sdl_ok st \<and> 8 dvd len \<and> len div 8 < k"
  show "\<exists>out st'. sdlAudioCallback k eng gain len st = Some (out, st') \<and>
         (list_ex (\<lambda>i. eng i = []) [enginePeriod st ..< enginePeriod st'] \<longrightarrow>
            (let fs = pending st @ concat (map eng [enginePeriod st ..< enginePeriod st'])
             in 8 * length fs < len \<and>
                out = map (\<lambda>f. FrameBytes (scaleFrame gain f)) fs
                      @ replicate (len - 8 * length fs) ZeroByte))"
  proof (cases "m_stopped st")
    case True
    then show ?thesis
      by (simp add: sdlAudioCallback_def)
  next
    case False
    from h loop_delivers [of st len k eng gain]
    obtain out st' fs z where r: "sdlAudioCallback_loop k eng gain len st = Some (out, st')"
      "out = map (\<lambda>f. FrameBytes (scaleFrame gain f)) fs @ replicate z ZeroByte"
      "8 * length fs + z = len"
      "fs @ pending st' = pending st @ concat (map eng [enginePeriod st ..< enginePeriod st'])"
      "list_ex (\<lambda>i. eng i = []) [enginePeriod st ..< enginePeriod st'] \<longleftrightarrow> 0 < z"
      "0 < z \<longrightarrow> pending st' = []"
      by blast
    have "list_ex (\<lambda>i. eng i = []) [enginePeriod st ..< enginePeriod st'] \<longrightarrow>
        (let fs = pending st @ concat (map eng [enginePeriod st ..< enginePeriod st'])
         in 8 * length fs < len \<and>
            out = map (\<lambda>f. FrameBytes (scaleFrame gain f)) fs
                  @ replicate (len - 8 * length fs) ZeroByte)"
    proof
      assume "list_ex (\<lambda>i. eng i = []) [enginePeriod st ..< enginePeriod st']"
      with r(5,6) have z: "0 < z" "pending st' = []" by simp_all
      with r(4) have fs: "pending st @ concat (map eng [enginePeriod st ..< enginePeriod st']) = fs"
        by simp
      from r(3) z(1) have "8 * length fs < len" "len - 8 * length fs = z"
        by simp_all
      with r(2) show "let fs = pending st @ concat (map eng [enginePeriod st ..< enginePeriod st'])
         in 8 * length fs < len \<and>
            out = map (\<lambda>f. FrameBytes (scaleFrame gain f)) fs
                  @ replicate (len - 8 * length fs) ZeroByte"
        unfolding Let_def fs by simp
    qed
    with r(1) False show ?thesis
      by (simp add: sdlAudioCallback_def)
  qed
qed (simp_all add: getNextBuffer_empty sdlAudioCallback_s16_def)

theorem zero_frames_silence_rest_witness:
  "sdl_ok demo_device \<and> (8::nat) dvd 64 \<and>
   (64::nat) div 8 < Suc (Suc (Suc (Suc (Suc (Suc (Suc (Suc (Suc 0)))))))) \<and>
   sdlAudioCallback (Suc (Suc (Suc (Suc (Suc (Suc (Suc (Suc (Suc 0))))))))) demo_gap_engine 2 64
       demo_device =
     Some ([FrameBytes (2, 4), FrameBytes (6, 8), FrameBytes (10, 12)] @ replicate 40 ZeroByte,
           demo_device\<lparr>m_outBuf := [(2, 4), (6, 8), (10, 12)], m_currentBufferFramesCount := 3,
              enginePeriod := 2\<rparr>) \<and>
   sdlAudioCallback_s16 1 (\<lambda>j. []) demo_convert 1 16 demo_device =
     Some (replicate 16 0, demo_device\<lparr>enginePeriod := 1, m_stopped := True\<rparr>) \<and>
   sdlAudioCallback_s16 0 demo_engine demo_convert 1 8
       (demo_device\<lparr>enginePeriod := 1, m_stopped := True\<rparr>) =
     Some (replicate 8 0, demo_device\<lparr>enginePeriod := 1, m_stopped := True\<rparr>)"
proof -
  have ok: "sdl_ok demo_device"
    by (simp add: sdl_ok_def demo_device_def)
  have run: "sdlAudioCallback (Suc (Suc (Suc (Suc (Suc (Suc (Suc (Suc (Suc 0)))))))))
       demo_gap_engine 2 64 demo_device =
     Some ([FrameBytes (2, 4), FrameBytes (6, 8), FrameBytes (10, 12)] @ replicate 40 ZeroByte,
           demo_device\<lparr>m_outBuf := [(2, 4), (6, 8), (10, 12)], m_currentBufferFramesCount := 3,
              enginePeriod := 2\<rparr>)"
    by (simp add: sdlAudioCallback_def getNextBuffer_def deliverFrames_def
        demo_device_def demo_gap_engine_def scaleFrame_def Let_def)
  from zero_frames_silence_rest [of demo_device 16 0 "\<lambda>j. []" 1 demo_convert 0 8] ok run
  show ?thesis
    by (simp add: sdlAudioCallback_s16_def demo_device_def)
qed

text \<open>
  Claim C7. A callback of the float variant on a span of whole frames returns. What it
  stores is a run of frames followed by zero bytes, together as long as the span. The
  frames are, in order, the frames not delivered yet and the frames of the buffers pulled
  during the call, each with both channels multiplied by the gain; the frames of the
  last buffer that are left over stay unscaled in the buffer for the next callback, so no
  frame is scaled twice. A gain of 1 leaves a frame as it is and a gain of 0 makes it
  zero.
\<close>

theorem master_gain_applied_once:
  assumes "sdl_ok st" "8 dvd len" "len div 8 < k"
  shows "(\<exists>out st' fs z. sdlAudioCallback k eng gain len st = Some (out, st') \<and>
           out = map (\<lambda>f. FrameBytes (scaleFrame gain f)) fs @ replicate z ZeroByte \<and>
           8 * length fs + z = len \<and> sum_list (map cell_size out) = len \<and>
           fs @ pending st' = pending st @ concat (map eng [enginePeriod st ..< enginePeriod st']) \<and>
           sdl_ok st') \<and>
         scaleFrame gain (l, r) = (l * gain, r * gain) \<and>
         scaleFrame 1 (l, r) = (l, r) \<and> scaleFrame 0 (l, r) = (0, 0)"
proof (cases "m_stopped st")
  case True
  with assms(1) show ?thesis
    by (simp add: sdlAudioCallback_def scaleFrame_def sum_list_replicate)
next
  case False
  from loop_delivers [OF assms, of eng gain]
  obtain out st' fs z where r: "sdlAudioCallback_loop k eng gain len st = Some (out, st')"
    "out = map (\<lambda>f. FrameBytes (scaleFrame gain f)) fs @ replicate z ZeroByte"
    "8 * length fs + z = len"
    "fs @ pending st' = pending st @ concat (map eng [enginePeriod st ..< enginePeriod st'])"
    "sdl_ok st'"
    by blast
  have "sum_list (map cell_size out) = 8 * length fs + z"
    by (simp add: r(2) comp_def sum_list_replicate sum_list_triv)
  with r False have "\<exists>out st' fs z. sdlAudioCallback k eng gain len st = Some (out, st') \<and>
           out = map (\<lambda>f. FrameBytes (scaleFrame gain f)) fs @ replicate z ZeroByte \<and>
           8 * length fs + z = len \<and> sum_list (map cell_size out) = len \<and>
           fs @ pending st' = pending st @ concat (map eng [enginePeriod st ..< enginePeriod st']) \<and>
           sdl_ok st'"
    by (intro exI [of _ out] exI [of _ st'] exI [of _ fs] exI [of _ z])
       (simp add: sdlAudioCallback_def)
  then show ?thesis
    by (simp add: scaleFrame_def)
qed

theorem master_gain_applied_once_witness:
  "sdl_ok demo_device \<and> (8::nat) dvd 32 \<and> (32::nat) div 8 < Suc (Suc (Suc (Suc (Suc 0)))) \<and>
   sdlAudioCallback (Suc (Suc (Suc (Suc (Suc 0))))) demo_engine (1/2) 32 demo_device =
     Some ([FrameBytes (1/2, 1), FrameBytes (3/2, 2), FrameBytes (5/2, 3), FrameBytes (1/2, 1)],
           demo_device\<lparr>m_outBuf := [(1/2, 1), (3, 4), (5, 6)], m_currentBufferFramesCount := 3,
              m_currentBufferFramePos := 1, enginePeriod := 2\<rparr>) \<and>
   (\<exists>out st' fs z.
      sdlAudioCallback (Suc (Suc (Suc (Suc (Suc 0))))) demo_engine (1/2) 32 demo_device =
        Some (out, st') \<and>
      out = map (\<lambda>f. FrameBytes (scaleFrame (1/2) f)) fs @ replicate z ZeroByte \<and>
      8 * length fs + z = 32 \<and> sum_list (map cell_size out) = 32 \<and>
      fs @ pending st' =
        pending demo_device @ concat (map demo_engine [enginePeriod demo_device ..< enginePeriod st']) \<and>
      sdl_ok st')"
proof -
  have ok: "sdl_ok demo_device"
    by (simp add: sdl_ok_def demo_device_def)
  have run: "sdlAudioCallback (Suc (Suc (Suc (Suc (Suc 0))))) demo_engine (1/2) 32 demo_device =
     Some ([FrameBytes (1/2, 1), FrameBytes (3/2, 2), FrameBytes (5/2, 3), FrameBytes (1/2, 1)],
           demo_device\<lparr>m_outBuf := [(1/2, 1), (3, 4), (5, 6)], m_currentBufferFramesCount := 3,
              m_currentBufferFramePos := 1, enginePeriod := 2\<rparr>)"
    by (simp add: sdlAudioCallback_def getNextBuffer_def deliverFrames_def
        demo_device_def demo_engine_def scaleFrame_def Let_def)
  have bound: "(8::nat) dvd 32" "(32::nat) div 8 < Suc (Suc (Suc (Suc (Suc 0))))"
    by simp_all
  from master_gain_applied_once [OF ok bound, of demo_engine "1/2" 0 0] ok run bound
  show ?thesis
    by (intro conjI) (simp_all only: simp_thms)
qed

text \<open>
  Claim C10. The dry level is the binary32 difference \<^verbatim>\<open>1.0f - wetLevel()\<close>, and
  the sum of the wet and the dry level differs from 1 by at most the rounding error of
  that subtraction.
\<close>

theorem dry_wet_complement:
  "dryLevel e = f32 (1 - wetLevel e) \<and>
   \<bar>wetLevel e + dryLevel e - 1\<bar> \<le> \<bar>1 - wetLevel e\<bar> / 2 ^ 24 + 1 / 2 ^ 150"
proof
  show "dryLevel e = f32 (1 - wetLevel e)"
    by (simp add: dryLevel_def wetLevel_def)
  have "wetLevel e + dryLevel e - 1 = f32 (1 - wetLevel e) - (1 - wetLevel e)"
    by (simp add: dryLevel_def wetLevel_def)
  then show "\<bar>wetLevel e + dryLevel e - 1\<bar> \<le> \<bar>1 - wetLevel e\<bar> / 2 ^ 24 + 1 / 2 ^ 150"
    using f32_error [of "1 - wetLevel e"] by simp
qed

text \<open>
  The sum is not 1 in general. For a wet level of \<^verbatim>\<open>0.1f\<close>, which is
  13421773/134217728, the dry level is 7549747/8388608 and the two add up to
  134217725/134217728.
\<close>

theorem dry_wet_sum_below_one:
  "f32 (1/10) = 13421773/134217728 \<and>
   dryLevel \<lparr>m_wetDryModel = 13421773/134217728\<rparr> = 7549747/8388608 \<and>
   wetLevel \<lparr>m_wetDryModel = 13421773/134217728\<rparr>
     + dryLevel \<lparr>m_wetDryModel = 13421773/134217728\<rparr> = 134217725/134217728 \<and>
   wetLevel \<lparr>m_wetDryModel = 13421773/134217728\<rparr>
     + dryLevel \<lparr>m_wetDryModel = 13421773/134217728\<rparr> \<noteq> 1 \<and>
   dryLevel \<lparr>m_wetDryModel = 13421773/134217728\<rparr>
     \<noteq> 1 - wetLevel \<lparr>m_wetDryModel = 13421773/134217728\<rparr>"
proof -
  have d: "dryLevel \<lparr>m_wetDryModel = 13421773/134217728\<rparr> = 7549747/8388608"
    unfolding dryLevel_def using f32_one_minus_tenth by simp
  show ?thesis
    unfolding d using f32_tenth by (simp add: wetLevel_def)
qed


end
